theory Spec2Isabelle
  imports Main
begin

section \<open>JavaScript values\<close>

text \<open>
  The loader inspects whatever a tool file exports, so exported values are modelled as
  untyped JavaScript values. A function value carries its behaviour, of a type \<open>'f\<close>
  fixed below. Objects are property lists (own properties, in insertion order); numbers
  are abstracted to integers, which no path of the program inspects. \<open>JBigInt\<close> is a
  BigInt, the value \<open>JSON.stringify\<close> refuses.
\<close>

datatype 'f jsval =
    JUndefined
  | JNull
  | JBool bool
  | JNum int
  | JBigInt int
  | JStr string
  | JFun 'f
  | JObj "(string \<times> 'f jsval) list"

text \<open>
  Values that cross the adapter (parsed arguments, the execution context, results and
  thrown values of a tool's \<open>execute\<close>) are values whose functions are opaque. The
  behaviour of an exported function is what a call \<open>await f(args, extra)\<close> settles to:
  \<open>Inl e\<close> when it throws or rejects with \<open>e\<close>, \<open>Inr r\<close> when it returns or
  resolves to \<open>r\<close>. A call that never settles is outside this model.
\<close>

type_synonym data = "unit jsval"
type_synonym behaviour = "data \<Rightarrow> data \<Rightarrow> data + data"
type_synonym jsvalue = "behaviour jsval"

text \<open>\<open>typeof v\<close>.\<close>

fun typeof :: "'f jsval \<Rightarrow> string" where
  "typeof JUndefined = ''undefined''"
| "typeof JNull = ''object''"
| "typeof (JBool b) = ''boolean''"
| "typeof (JNum n) = ''number''"
| "typeof (JBigInt n) = ''bigint''"
| "typeof (JStr s) = ''string''"
| "typeof (JFun f) = ''function''"
| "typeof (JObj ps) = ''object''"

text \<open>Truthiness, as \<open>&&\<close>, \<open>||\<close>, \<open>if\<close> and \<open>?:\<close> test it.\<close>

fun truthy :: "'f jsval \<Rightarrow> bool" where
  "truthy JUndefined = False"
| "truthy JNull = False"
| "truthy (JBool b) = b"
| "truthy (JNum n) = (n \<noteq> 0)"
| "truthy (JBigInt n) = (n \<noteq> 0)"
| "truthy (JStr s) = (s \<noteq> [])"
| "truthy (JFun f) = True"
| "truthy (JObj ps) = True"

text \<open>\<open>k in v\<close>, used by the program only on non-null objects.\<close>

fun has_prop :: "string \<Rightarrow> 'f jsval \<Rightarrow> bool" where
  "has_prop k (JObj ps) = (k \<in> fst ` set ps)"
| "has_prop k v = False"

text \<open>
  \<open>v.k\<close> for a value that is neither \<open>null\<close> nor \<open>undefined\<close>: the property's value,
  \<open>undefined\<close> when there is none. (The program reads only \<open>default\<close>, \<open>description\<close>,
  \<open>execute\<close>, \<open>args\<close>, \<open>code\<close> and \<open>message\<close>, none of which a primitive or a plain
  function has.)
\<close>

fun get :: "'f jsval \<Rightarrow> string \<Rightarrow> 'f jsval" where
  "get (JObj ps) k = (case map_of ps k of Some v \<Rightarrow> v | None \<Rightarrow> JUndefined)"
| "get v k = JUndefined"

fun nullish :: "'f jsval \<Rightarrow> bool" where
  "nullish JUndefined = True"
| "nullish JNull = True"
| "nullish v = False"

text \<open>The \<open>TypeError\<close> the engine throws on a property read of \<open>null\<close> or \<open>undefined\<close>,
  or on a call of a value that is not a function.\<close>

definition type_error :: "'f jsval" where
  "type_error = JObj [(''name'', JStr ''TypeError'')]"

text \<open>\<open>v.k\<close> for any value: reading a property of \<open>null\<close> or \<open>undefined\<close> throws.\<close>

definition read_prop :: "'f jsval \<Rightarrow> string \<Rightarrow> 'f jsval + 'f jsval" where
  "read_prop v k = (if nullish v then Inl type_error else Inr (get v k))"

text \<open>Decimal rendering of a non-negative integer, as a template literal renders
  \<open>Date.now()\<close>; it also names the index properties of a string.\<close>

definition digit :: "nat \<Rightarrow> char" where
  "digit d = ''0123456789'' ! d"

function dec :: "nat \<Rightarrow> string" where
  "dec n = (if n < 10 then [digit n] else dec (n div 10) @ [digit (n mod 10)])"
  by pat_completeness auto
termination
  by (relation "measure id") auto

declare dec.simps [simp del]

text \<open>\<open>Object.keys(v)\<close> for a value that is neither \<open>null\<close> nor \<open>undefined\<close>.\<close>

fun object_keys :: "'f jsval \<Rightarrow> string list" where
  "object_keys (JObj ps) = map fst ps"
| "object_keys (JStr s) = map dec [0..<length s]"
| "object_keys v = []"

text \<open>\<open>s.endsWith(x)\<close> and \<open>file.replace(/\.(ts|js)$/, "")\<close>.\<close>

definition endsWith :: "string \<Rightarrow> string \<Rightarrow> bool" where
  "endsWith s x = (length x \<le> length s \<and> drop (length s - length x) s = x)"

definition strip_ext :: "string \<Rightarrow> string" where
  "strip_ext file =
     (if endsWith file ''.ts'' \<or> endsWith file ''.js''
      then take (length file - 3) file else file)"

section \<open>Tool definitions\<close>

text \<open>The type guard \<open>isToolDefinition\<close>.\<close>

definition isToolDefinition :: "'f jsval \<Rightarrow> bool" where
  "isToolDefinition v =
     (typeof v = ''object'' \<and>
      v \<noteq> JNull \<and>
      has_prop ''description'' v \<and>
      has_prop ''execute'' v \<and>
      typeof (get v ''description'') = ''string'' \<and>
      typeof (get v ''execute'') = ''function'')"

section \<open>The server and the registry\<close>

text \<open>
  The response envelope a handler resolves to: \<open>{content: [{type: "text", text}]}\<close>.
  The text is the result itself when it is a string and \<open>JSON.stringify(result, null, 2)\<close>
  otherwise. The serializer is a library function: what it returns is kept symbolic, but
  it throws a \<open>TypeError\<close> on a value that holds a BigInt, at any depth. (It throws on
  a cyclic object too; data here are finite trees.)
\<close>

datatype rendered = Verbatim string | JsonStringify data

datatype content_item = Content (ctype: string) (ctext: rendered)

datatype envelope = Envelope (content: "content_item list")

text \<open>
  The two callback shapes \<open>server.tool\<close> accepts: with a schema the sink calls
  \<open>cb(args, extra)\<close>, without one \<open>cb(extra)\<close>. A callback settles to \<open>Inl e\<close>
  (its promise rejects with \<open>e\<close>) or to \<open>Inr\<close> of an envelope.
\<close>

datatype callback =
    ArgsCallback "data \<Rightarrow> data \<Rightarrow> data + envelope"
  | ExtraCallback "data \<Rightarrow> data + envelope"

record tool_entry =
  description :: jsvalue
  inputSchema :: "jsvalue option"
  callback :: callback

text \<open>
  What the program writes to the diagnostic stream (\<open>console.error\<close>) and the calls it
  makes to the sink's notification method, in order. \<open>CallLoadToolFile\<close> is not a line of
  output: it marks the entry into \<open>loadToolFile\<close>.
\<close>

datatype event =
    LogUnregistering string "string list"
  | LogRegistering string
  | LogFileDeleted string
  | LogFailedToLoad string jsvalue
  | LogNoToolsFound jsvalue
  | LogWatcherEvent string "string option"
  | LogScheduling string
  | LogSendingNotification
  | LogNotAvailable
  | LogNotifyFailed jsvalue
  | CallLoadToolFile string
  | SendToolListChanged

datatype timer = NoTimer | Armed | Fired

text \<open>
  The mutable state of the process: the module-level map \<open>registeredTools\<close> (base name
  to the set of tool names, a set kept as a list without repetitions in insertion order),
  the sink's table \<open>server._registeredTools\<close>, the scheduler's \<open>pendingReloads\<close> and
  \<open>reloadTimeout\<close>, and the trace of events so far.
\<close>

record state =
  registeredTools :: "string \<rightharpoonup> string list"
  serverTools :: "string \<rightharpoonup> tool_entry"
  pendingReloads :: "string list"
  reloadTimeout :: timer
  trace :: "event list"

definition init :: state where
  "init = \<lparr>registeredTools = Map.empty, serverTools = Map.empty,
            pendingReloads = [], reloadTimeout = NoTimer, trace = []\<rparr>"

definition emit :: "event \<Rightarrow> state \<Rightarrow> state" where
  "emit e st = st\<lparr>trace := trace st @ [e]\<rparr>"

text \<open>\<open>Set.prototype.add\<close>.\<close>

definition set_add :: "string \<Rightarrow> string list \<Rightarrow> string list" where
  "set_add x xs = (if x \<in> set xs then xs else xs @ [x])"

text \<open>The names tracked for a base name (none when the map has no entry).\<close>

definition owned :: "state \<Rightarrow> string \<Rightarrow> string list" where
  "owned st baseName = (case registeredTools st baseName of None \<Rightarrow> [] | Some names \<Rightarrow> names)"

text \<open>
  \<open>unregisterFileTools\<close>. The sink keeps its table in \<open>_registeredTools\<close>, an object
  and therefore truthy, so the inner guard is always taken.
\<close>

definition unregisterFileTools :: "string \<Rightarrow> state \<Rightarrow> state" where
  "unregisterFileTools file st =
     (let baseName = strip_ext file in
      case registeredTools st baseName of
        None \<Rightarrow> st
      | Some toolNames \<Rightarrow>
          (let st1 = emit (LogUnregistering file toolNames) st;
               st2 = st1\<lparr>serverTools := fold (\<lambda>name t. t(name := None)) toolNames (serverTools st1)\<rparr>
           in st2\<lparr>registeredTools := (registeredTools st2)(baseName := None)\<rparr>))"

text \<open>
  Modelled from the spec: the sink's \<open>server.tool(name, description, [schema,] cb)\<close> is
  not part of this repository. It installs the entry under the name, overwriting any
  entry already there (section 4.2: last registration wins, no error is raised).
\<close>

definition server_tool :: "string \<Rightarrow> tool_entry \<Rightarrow> state \<Rightarrow> state" where
  "server_tool name entry st = st\<lparr>serverTools := (serverTools st)(name \<mapsto> entry)\<rparr>"

text \<open>\<open>await tool.execute(args, extra)\<close>: calling a value that is not a function throws.\<close>

definition call_execute :: "jsvalue \<Rightarrow> data \<Rightarrow> data \<Rightarrow> data + data" where
  "call_execute tool args extra =
     (case get tool ''execute'' of JFun f \<Rightarrow> f args extra | _ \<Rightarrow> Inl type_error)"

text \<open>\<open>typeof result === "string" ? result : JSON.stringify(result, null, 2)\<close>:
  the text, or the error the serializer throws.\<close>

fun unserializable :: "'f jsval \<Rightarrow> bool" where
  "unserializable (JBigInt n) = True"
| "unserializable (JObj ps) = (\<exists>p \<in> set ps. unserializable (snd p))"
| "unserializable v = False"

definition render :: "data \<Rightarrow> data + rendered" where
  "render result =
     (case result of
        JStr s \<Rightarrow> Inr (Verbatim s)
      | _ \<Rightarrow> if unserializable result then Inl type_error else Inr (JsonStringify result))"

text \<open>
  The body shared by both handlers: \<open>const result = await tool.execute(...)\<close> followed
  by the \<open>return\<close> of the envelope. There is no \<open>try\<close> in the handler, so a failure of
  \<open>execute\<close>, and likewise one of the serializer, is the failure of the handler.
\<close>

definition respond :: "data + data \<Rightarrow> data + envelope" where
  "respond r =
     (case r of
        Inl e \<Rightarrow> Inl e
      | Inr result \<Rightarrow>
          (case render result of
             Inl e \<Rightarrow> Inl e
           | Inr text \<Rightarrow> Inr (Envelope [Content ''text'' text])))"

text \<open>\<open>registerTool\<close>.\<close>

definition registerTool :: "string \<Rightarrow> jsvalue \<Rightarrow> string \<Rightarrow> state \<Rightarrow> state" where
  "registerTool name tool baseName st =
     (let st1 = (if registeredTools st baseName = None
                 then st\<lparr>registeredTools := (registeredTools st)(baseName \<mapsto> [])\<rparr> else st);
          st2 = st1\<lparr>registeredTools :=
                  (registeredTools st1)(baseName \<mapsto> set_add name (the (registeredTools st1 baseName)))\<rparr>;
          schema = (let a = get tool ''args'' in
                    if truthy a \<and> length (object_keys a) > 0 then a else JUndefined);
          st3 = emit (LogRegistering name) st2
      in if truthy schema
         then server_tool name
                \<lparr>description = get tool ''description'', inputSchema = Some schema,
                 callback = ArgsCallback (\<lambda>args extra. respond (call_execute tool args extra))\<rparr> st3
         else server_tool name
                \<lparr>description = get tool ''description'', inputSchema = None,
                 callback = ExtraCallback (\<lambda>extra. respond (call_execute tool (JObj []) extra))\<rparr> st3)"

text \<open>
  The entry \<open>registerTool\<close> hands to the sink for a tool: the description, the schema
  when \<open>args\<close> is truthy and has at least one key, and the handler of the matching shape.
\<close>

definition registered_entry :: "jsvalue \<Rightarrow> tool_entry" where
  "registered_entry tool =
     (let a = get tool ''args'' in
      if truthy a \<and> length (object_keys a) > 0
      then \<lparr>description = get tool ''description'', inputSchema = Some a,
            callback = ArgsCallback (\<lambda>args extra. respond (call_execute tool args extra))\<rparr>
      else \<lparr>description = get tool ''description'', inputSchema = None,
            callback = ExtraCallback (\<lambda>extra. respond (call_execute tool (JObj []) extra))\<rparr>)"

text \<open>
  Modelled from the spec: how the sink, which is not part of this repository, invokes a
  registered callback (section 4.3 and the comment in \<open>registerTool\<close>: without a schema
  the callback receives only \<open>extra\<close>). \<open>args\<close> are the arguments as the sink parsed them.
\<close>

definition invoke :: "tool_entry \<Rightarrow> data \<Rightarrow> data \<Rightarrow> data + envelope" where
  "invoke entry args extra =
     (case callback entry of
        ArgsCallback cb \<Rightarrow> cb args extra
      | ExtraCallback cb \<Rightarrow> cb extra)"

section \<open>Configuration and environment\<close>

record config =
  toolDir :: string
  hotReload :: bool

text \<open>The flag: \<open>process.env.MCP_NO_HOT_RELOAD !== "true" &&
  !process.argv.includes("--no-hot-reload")\<close>.\<close>

definition hotReload_setting :: "string option \<Rightarrow> string list \<Rightarrow> bool" where
  "hotReload_setting envvar argv = (envvar \<noteq> Some ''true'' \<and> ''--no-hot-reload'' \<notin> set argv)"

text \<open>\<open>path.resolve(p)\<close> in the working directory \<open>cwd\<close> (the normalization of
  \<open>.\<close> and \<open>..\<close> segments is not modelled).\<close>

definition resolve :: "string \<Rightarrow> string \<Rightarrow> string" where
  "resolve cwd p = (if p \<noteq> [] \<and> hd p = CHR ''/'' then p else cwd @ ''/'' @ p)"

text \<open>
  The configuration of a process started in \<open>cwd\<close> with \<open>MCP_NO_HOT_RELOAD\<close> set
  to \<open>envvar\<close> (\<open>None\<close>: unset) and the argument vector \<open>argv\<close>:
  \<open>toolDir = resolve(process.argv[2] || ".claude/tool")\<close>, whatever \<open>argv[2]\<close> is.
\<close>

definition configure :: "string \<Rightarrow> string option \<Rightarrow> string list \<Rightarrow> config" where
  "configure cwd envvar argv =
     \<lparr>toolDir = resolve cwd (if 2 < length argv \<and> argv ! 2 \<noteq> [] then argv ! 2 else ''.claude/tool''),
      hotReload = hotReload_setting envvar argv\<rparr>"

text \<open>
  What the program observes of the outside world during one scan or one batch:
  \<^item> \<open>readdir\<close>: for a directory, its listing, or the value \<open>readdir\<close> rejects with;
  \<^item> \<open>stat\<close>: for a path, the value \<open>stat\<close> rejects with (\<open>None\<close>: it resolves);
  \<^item> \<open>importModule\<close>: for an import URL, the value \<open>import()\<close> rejects with, or the
    module namespace object as its list of entries (export name, value);
  \<^item> \<open>dateNow\<close>: the reading of \<open>Date.now()\<close> taken while loading the given file;
  \<^item> \<open>sendToolListChanged\<close>: whether \<open>server.server\<close> has the method, and how a
    call of it settles.
\<close>

datatype send_method = NotAvailable | Resolves | RejectsWith jsvalue

record env =
  readdir :: "string \<Rightarrow> jsvalue + string list"
  stat :: "string \<Rightarrow> jsvalue option"
  importModule :: "string \<Rightarrow> jsvalue + (string \<times> jsvalue) list"
  dateNow :: "string \<Rightarrow> nat"
  sendToolListChanged :: send_method

text \<open>\<open>path.join(toolDir, file)\<close> for a file name of the directory, and
  \<open>pathToFileURL(p).href\<close> (percent-encoding is not modelled).\<close>

definition join :: "string \<Rightarrow> string \<Rightarrow> string" where
  "join dir file = dir @ ''/'' @ file"

definition pathToFileURL :: "string \<Rightarrow> string" where
  "pathToFileURL p = ''file://'' @ p"

text \<open>\<open>hotReload ? `${fileUrl}?t=${Date.now()}` : fileUrl\<close>.\<close>

definition import_url :: "bool \<Rightarrow> string \<Rightarrow> nat \<Rightarrow> string" where
  "import_url hot fileUrl now = (if hot then fileUrl @ ''?t='' @ dec now else fileUrl)"

section \<open>Loading a tool file\<close>

text \<open>
  An asynchronous function either returns or rejects; both leave the state it has
  reached, since the program's state is global.
\<close>

datatype outcome = Returned state | Rejected jsvalue state

fun final :: "outcome \<Rightarrow> state" where
  "final (Returned st) = st"
| "final (Rejected e st) = st"

fun returned :: "outcome \<Rightarrow> bool" where
  "returned (Returned st) = True"
| "returned (Rejected e st) = False"

text \<open>The loop over \<open>Object.entries(module)\<close>.\<close>

fun register_named :: "string \<Rightarrow> (string \<times> jsvalue) list \<Rightarrow> state \<Rightarrow> state" where
  "register_named baseName [] st = st"
| "register_named baseName ((key, v) # rest) st =
     register_named baseName rest
       (if key \<noteq> ''default'' \<and> isToolDefinition v
        then registerTool (baseName @ ''_'' @ key) v baseName st else st)"

text \<open>
  The \<open>catch (e: any)\<close> block of \<open>loadToolFile\<close>. It reads \<open>e.code\<close> first; that read
  throws when the caught value is \<open>null\<close> or \<open>undefined\<close>, and nothing catches it.
\<close>

definition load_failed :: "string \<Rightarrow> jsvalue \<Rightarrow> state \<Rightarrow> outcome" where
  "load_failed file e st =
     (case read_prop e ''code'' of
        Inl err \<Rightarrow> Rejected err st
      | Inr code \<Rightarrow>
          if code = JStr ''ENOENT'' then Returned (emit (LogFileDeleted file) st)
          else Returned (emit (LogFailedToLoad file
                 (let m = get e ''message'' in if truthy m then m else e)) st))"

text \<open>
  \<open>loadToolFile\<close> runs in two stretches. The first is synchronous: the extension
  test and \<open>unregisterFileTools\<close>. Then the function is suspended at \<open>await stat\<close>
  and at \<open>await import()\<close>; between these two awaits it changes nothing, so one point
  of suspension stands for both. While it is suspended other callbacks of the process
  may run. The second stretch, again synchronous, is the registrations, or the
  \<open>catch\<close> block. In this model \<open>registerTool\<close> does not throw.
\<close>

definition loadToolFile_begin :: "string \<Rightarrow> state \<Rightarrow> state" where
  "loadToolFile_begin file st0 =
     (let st = emit (CallLoadToolFile file) st0 in
      if \<not> endsWith file ''.ts'' \<and> \<not> endsWith file ''.js'' then st
      else unregisterFileTools file st)"

definition loadToolFile_resume :: "config \<Rightarrow> env \<Rightarrow> string \<Rightarrow> state \<Rightarrow> outcome" where
  "loadToolFile_resume cfg env file st1 =
     (let filePath = join (toolDir cfg) file;
          baseName = strip_ext file
      in case stat env filePath of
           Some e \<Rightarrow> load_failed file e st1
         | None \<Rightarrow>
             (let fileUrl = pathToFileURL filePath;
                  importUrl = import_url (hotReload cfg) fileUrl (dateNow env file)
              in case importModule env importUrl of
                   Inl e \<Rightarrow> load_failed file e st1
                 | Inr module \<Rightarrow>
                     (let dflt = get (JObj module) ''default'';
                          st2 = (if truthy dflt \<and> isToolDefinition dflt
                                 then registerTool baseName dflt baseName st1 else st1)
                      in Returned (register_named baseName module st2))))"

text \<open>A call of \<open>loadToolFile\<close> during whose awaits nothing else runs. For a file
  without a recognised extension the call returns before any await.\<close>

definition loadToolFile :: "config \<Rightarrow> env \<Rightarrow> string \<Rightarrow> state \<Rightarrow> outcome" where
  "loadToolFile cfg env file st0 =
     (let st1 = loadToolFile_begin file st0 in
      if \<not> endsWith file ''.ts'' \<and> \<not> endsWith file ''.js'' then Returned st1
      else loadToolFile_resume cfg env file st1)"

text \<open>The loop \<open>for (const file of files) await loadToolFile(file)\<close>: a rejection
  leaves the loop.\<close>

fun load_each :: "config \<Rightarrow> env \<Rightarrow> string list \<Rightarrow> state \<Rightarrow> outcome" where
  "load_each cfg env [] st = Returned st"
| "load_each cfg env (file # files) st =
     (case loadToolFile cfg env file st of
        Rejected e st' \<Rightarrow> Rejected e st'
      | Returned st' \<Rightarrow> load_each cfg env files st')"

text \<open>\<open>loadAllTools\<close>: its \<open>try\<close> covers the listing and the whole loop.\<close>

definition loadAllTools :: "config \<Rightarrow> env \<Rightarrow> state \<Rightarrow> state" where
  "loadAllTools cfg env st =
     (case readdir env (toolDir cfg) of
        Inl e \<Rightarrow> emit (LogNoToolsFound e) st
      | Inr files \<Rightarrow>
          (case load_each cfg env files st of
             Returned st' \<Rightarrow> st'
           | Rejected e st' \<Rightarrow> emit (LogNoToolsFound e) st'))"

section \<open>The change scheduler\<close>

text \<open>The \<open>try\<close> block that sends the notification.\<close>

definition send_list_changed :: "env \<Rightarrow> state \<Rightarrow> state" where
  "send_list_changed env st =
     (case sendToolListChanged env of
        NotAvailable \<Rightarrow> emit LogNotAvailable st
      | Resolves \<Rightarrow> emit SendToolListChanged st
      | RejectsWith e \<Rightarrow> emit (LogNotifyFailed e) (emit SendToolListChanged st))"

text \<open>The callback of the debounce timer.\<close>

definition reload_batch :: "config \<Rightarrow> env \<Rightarrow> state \<Rightarrow> outcome" where
  "reload_batch cfg env st =
     (let files = pendingReloads st;
          st1 = st\<lparr>pendingReloads := []\<rparr>
      in case load_each cfg env files st1 of
           Rejected e st2 \<Rightarrow> Rejected e st2
         | Returned st2 \<Rightarrow>
             Returned (if length files > 0
                       then send_list_changed env (emit LogSendingNotification st2)
                       else st2))"

text \<open>\<open>scheduleReload\<close>: a timer that has not fired is cleared and a new one is armed.\<close>

definition scheduleReload :: "state \<Rightarrow> state" where
  "scheduleReload st = st\<lparr>reloadTimeout := Armed\<rparr>"

text \<open>The callback given to \<open>watch\<close>.\<close>

definition watch_callback :: "string \<Rightarrow> string option \<Rightarrow> state \<Rightarrow> state" where
  "watch_callback eventType filename st =
     (let st1 = emit (LogWatcherEvent eventType filename) st in
      case filename of
        None \<Rightarrow> st1
      | Some f \<Rightarrow>
          if f \<noteq> [] \<and> (endsWith f ''.ts'' \<or> endsWith f ''.js'')
          then (let st2 = emit (LogScheduling f) st1;
                    st3 = st2\<lparr>pendingReloads := set_add f (pendingReloads st2)\<rparr>
                in scheduleReload st3)
          else st1)"

section \<open>The process\<close>

text \<open>
  After the initial scan the process reacts to two kinds of input: a file system event
  delivered to the watcher, and the debounce timer firing (with the environment observed
  by that batch). The watcher exists only when hot reload is enabled, and only an armed
  timer fires. Which of the two happens next is not decided by the program; the quiescence
  window of a batch is the stretch of inputs between two firings. In \<open>step\<close> and
  \<open>run\<close> a timer callback runs to its end before the next input is handled, so these
  describe the runs in which every batch has finished when the next input arrives.
  The general case, in which callbacks overlap at their awaits, follows below.
\<close>

datatype input = FsEvent string "string option" | TimerFires env

definition startup :: "config \<Rightarrow> env \<Rightarrow> state" where
  "startup cfg env = loadAllTools cfg env init"

definition step :: "config \<Rightarrow> input \<Rightarrow> state \<Rightarrow> outcome" where
  "step cfg i st =
     (case i of
        FsEvent eventType filename \<Rightarrow>
          if hotReload cfg then Returned (watch_callback eventType filename st) else Returned st
      | TimerFires env \<Rightarrow>
          if hotReload cfg \<and> reloadTimeout st = Armed
          then reload_batch cfg env (st\<lparr>reloadTimeout := Fired\<rparr>)
          else Returned st)"

text \<open>A run stops at the first rejection: nothing handles it.\<close>

fun run :: "config \<Rightarrow> input list \<Rightarrow> state \<Rightarrow> outcome" where
  "run cfg [] st = Returned st"
| "run cfg (i # is) st =
     (case step cfg i st of
        Rejected e st' \<Rightarrow> Rejected e st'
      | Returned st' \<Rightarrow> run cfg is st')"

subsection \<open>Overlapping callbacks\<close>

text \<open>
  A timer callback is suspended wherever \<open>loadToolFile\<close> awaits, and nothing in
  \<open>scheduleReload\<close> keeps a file system event or another timer callback from running
  meanwhile. A suspended callback is recorded with the environment its batch observes,
  the file whose load is suspended, and the files of its batch still to be loaded.
\<close>

record task =
  task_env :: env
  task_file :: string
  task_rest :: "string list"

text \<open>
  The batch loop \<open>for (const file of files) await loadToolFile(file)\<close>, from the files
  still to be loaded up to the next suspension or, when none is left, through the
  notification. (It is entered for a batch that is not empty.)
\<close>

fun continue_batch :: "env \<Rightarrow> string list \<Rightarrow> state \<Rightarrow> state \<times> task option" where
  "continue_batch env [] st = (send_list_changed env (emit LogSendingNotification st), None)"
| "continue_batch env (f # rest) st =
     (let st1 = loadToolFile_begin f st in
      if \<not> endsWith f ''.ts'' \<and> \<not> endsWith f ''.js'' then continue_batch env rest st1
      else (st1, Some \<lparr>task_env = env, task_file = f, task_rest = rest\<rparr>))"

definition suspend :: "state \<times> task option \<Rightarrow> task list \<Rightarrow> state \<times> task list" where
  "suspend r tasks = (case r of (st, None) \<Rightarrow> (st, tasks) | (st, Some t) \<Rightarrow> (st, tasks @ [t]))"

text \<open>The timer callback up to its first suspension.\<close>

definition start_batch :: "env \<Rightarrow> state \<Rightarrow> task list \<Rightarrow> state \<times> task list" where
  "start_batch env st tasks =
     (let files = pendingReloads st;
          st1 = st\<lparr>pendingReloads := []\<rparr>
      in if length files > 0 then suspend (continue_batch env files st1) tasks else (st1, tasks))"

text \<open>
  What happens next: an input from outside, or the awaited \<open>stat\<close> and \<open>import()\<close>
  of the \<open>k\<close>-th suspended callback settle and that callback runs on.
\<close>

datatype tick = External input | Settles nat

datatype progress = Running state "task list" | Crashed jsvalue state "task list"


definition settle :: "config \<Rightarrow> nat \<Rightarrow> state \<Rightarrow> task list \<Rightarrow> progress" where
  "settle cfg k st tasks =
     (if k < length tasks
      then (let t = tasks ! k;
                others = take k tasks @ drop (Suc k) tasks
            in case loadToolFile_resume cfg (task_env t) (task_file t) st of
                 Rejected e st' \<Rightarrow> Crashed e st' others
               | Returned st' \<Rightarrow>
                   (case suspend (continue_batch (task_env t) (task_rest t) st') others of
                      (st'', tasks') \<Rightarrow> Running st'' tasks'))
      else Running st tasks)"

definition tick_step :: "config \<Rightarrow> tick \<Rightarrow> state \<Rightarrow> task list \<Rightarrow> progress" where
  "tick_step cfg tk st tasks =
     (case tk of
        External (FsEvent eventType filename) \<Rightarrow>
          Running (if hotReload cfg then watch_callback eventType filename st else st) tasks
      | External (TimerFires env) \<Rightarrow>
          if hotReload cfg \<and> reloadTimeout st = Armed
          then (case start_batch env (st\<lparr>reloadTimeout := Fired\<rparr>) tasks of
                  (st', tasks') \<Rightarrow> Running st' tasks')
          else Running st tasks
      | Settles k \<Rightarrow> settle cfg k st tasks)"

fun overlapped_run :: "config \<Rightarrow> tick list \<Rightarrow> state \<Rightarrow> task list \<Rightarrow> progress" where
  "overlapped_run cfg [] st tasks = Running st tasks"
| "overlapped_run cfg (tk # tks) st tasks =
     (case tick_step cfg tk st tasks of
        Crashed e st' tasks' \<Rightarrow> Crashed e st' tasks'
      | Running st' tasks' \<Rightarrow> overlapped_run cfg tks st' tasks')"

section \<open>Observations\<close>

text \<open>The files \<open>loadToolFile\<close> was entered for, and the number of calls of the sink's
  notification method, in a trace.\<close>

fun loads_in :: "event list \<Rightarrow> string list" where
  "loads_in [] = []"
| "loads_in (CallLoadToolFile f # es) = f # loads_in es"
| "loads_in (e # es) = loads_in es"

fun sends_in :: "event list \<Rightarrow> nat" where
  "sends_in [] = 0"
| "sends_in (SendToolListChanged # es) = Suc (sends_in es)"
| "sends_in (e # es) = sends_in es"

text \<open>
  A file is a tool file when its name ends in \<open>.ts\<close> or \<open>.js\<close>.
\<close>

definition eligible :: "string \<Rightarrow> bool" where
  "eligible file = (endsWith file ''.ts'' \<or> endsWith file ''.js'')"

text \<open>The URL \<open>loadToolFile\<close> passes to \<open>import()\<close> for a file.\<close>

definition requested_url :: "config \<Rightarrow> env \<Rightarrow> string \<Rightarrow> string" where
  "requested_url cfg env file =
     import_url (hotReload cfg) (pathToFileURL (join (toolDir cfg) file)) (dateNow env file)"

text \<open>
  What the two awaits in the \<open>try\<close> block of \<open>loadToolFile\<close> amount to for a file:
  the value thrown into the \<open>catch\<close> block (by \<open>stat\<close> or by \<open>import()\<close>), or the
  module namespace.
\<close>

definition load_result :: "config \<Rightarrow> env \<Rightarrow> string \<Rightarrow> jsvalue + (string \<times> jsvalue) list" where
  "load_result cfg env file =
     (case stat env (join (toolDir cfg) file) of
        Some e \<Rightarrow> Inl e
      | None \<Rightarrow> importModule env (requested_url cfg env file))"

text \<open>
  The exports of a file's current content, as this load sees them: the entries of the
  module namespace its import evaluates to, and none when the file is missing or its
  import fails.
\<close>

definition current_exports :: "config \<Rightarrow> env \<Rightarrow> string \<Rightarrow> (string \<times> jsvalue) list" where
  "current_exports cfg env file =
     (case load_result cfg env file of Inl e \<Rightarrow> [] | Inr module \<Rightarrow> module)"

text \<open>A load whose caught value is \<open>null\<close> or \<open>undefined\<close>.\<close>

definition load_rejects :: "config \<Rightarrow> env \<Rightarrow> string \<Rightarrow> bool" where
  "load_rejects cfg env file =
     (eligible file \<and> (case load_result cfg env file of Inl e \<Rightarrow> nullish e | Inr module \<Rightarrow> False))"

text \<open>The name the specification derives for an export of a file with base identity
  \<open>b\<close>, and the names derived from the capability descriptors among a module's exports.\<close>

definition capability_name :: "string \<Rightarrow> string \<Rightarrow> string" where
  "capability_name b exportName = (if exportName = ''default'' then b else b @ ''_'' @ exportName)"

definition derived_names :: "string \<Rightarrow> (string \<times> jsvalue) list \<Rightarrow> string list" where
  "derived_names b module =
     map (\<lambda>(k, v). capability_name b k) (filter (\<lambda>(k, v). isToolDefinition v) module)"

text \<open>The names the loop over the named exports registers.\<close>

definition named_names :: "string \<Rightarrow> (string \<times> jsvalue) list \<Rightarrow> string list" where
  "named_names b module =
     map (\<lambda>(k, v). b @ ''_'' @ k) (filter (\<lambda>(k, v). k \<noteq> ''default'' \<and> isToolDefinition v) module)"

text \<open>
  Modelled from the spec: the sink serving a call of the tool registered under a name
  (\<open>None\<close>: no such tool); the result is how the registered handler settles.
\<close>

definition call_tool :: "state \<Rightarrow> string \<Rightarrow> data \<Rightarrow> data \<Rightarrow> (data + envelope) option" where
  "call_tool st name args extra =
     (case serverTools st name of
        None \<Rightarrow> None
      | Some entry \<Rightarrow> Some (invoke entry args extra))"

text \<open>The file names of a list of watcher events (event type, file name) that the
  watcher schedules, and the batch they accumulate to from an empty pending set.\<close>

definition scheduled :: "(string \<times> string option) list \<Rightarrow> string list" where
  "scheduled evs = concat (map (\<lambda>(t, fn). case fn of None \<Rightarrow> [] | Some f \<Rightarrow> if eligible f then [f] else []) evs)"

definition batch_of :: "(string \<times> string option) list \<Rightarrow> string list" where
  "batch_of evs = fold set_add (scheduled evs) []"

text \<open>The import of every listed file settles the same way with and without the
  \<open>?t=\<close> token of the given environment.\<close>

definition token_independent :: "string \<Rightarrow> env \<Rightarrow> bool" where
  "token_independent dir env =
     (case readdir env dir of
        Inl e \<Rightarrow> True
      | Inr files \<Rightarrow>
          list_all (\<lambda>file. importModule env (import_url True (pathToFileURL (join dir file)) (dateNow env file))
                          = importModule env (import_url False (pathToFileURL (join dir file)) (dateNow env file)))
            files)"

section \<open>Example values\<close>

text \<open>A tool that returns its arguments, one whose \<open>execute\<close> throws, and an object
  that lacks \<open>description\<close>.\<close>

definition echo_tool :: jsvalue where
  "echo_tool = JObj [(''description'', JStr ''Echo''),
                     (''args'', JObj [(''text'', JObj [])]),
                     (''execute'', JFun (\<lambda>args extra. Inr args))]"

definition failing_tool :: jsvalue where
  "failing_tool = JObj [(''description'', JStr ''Fails''),
                        (''execute'', JFun (\<lambda>args extra. Inl (JStr ''boom'')))]"

definition no_description :: jsvalue where
  "no_description = JObj [(''execute'', JFun (\<lambda>args extra. Inr JNull))]"

definition math_module :: "(string \<times> jsvalue) list" where
  "math_module = [(''add'', echo_tool), (''default'', failing_tool),
                  (''helper'', no_description), (''version'', JNum 1)]"

definition cfg_hot :: config where
  "cfg_hot = \<lparr>toolDir = ''/t'', hotReload = True\<rparr>"

definition cfg_cold :: config where
  "cfg_cold = \<lparr>toolDir = ''/t'', hotReload = False\<rparr>"

text \<open>A directory with \<open>math.ts\<close> and a file that is no tool file; every other import
  fails with an \<open>Error\<close>.\<close>

definition example_env :: env where
  "example_env =
     \<lparr>readdir = (\<lambda>d. Inr [''math.ts'', ''notes.md'']),
      stat = (\<lambda>p. None),
      importModule = (\<lambda>u. if u = ''file:///t/math.ts?t=7'' \<or> u = ''file:///t/math.ts''
                           then Inr math_module
                           else Inl (JObj [(''message'', JStr ''Cannot find module'')])),
      dateNow = (\<lambda>f. 7),
      sendToolListChanged = Resolves\<rparr>"

text \<open>Two files that derive the same tool name \<open>a_b_c\<close>: \<open>a.ts\<close> exports \<open>b_c\<close>
  and \<open>a_b.ts\<close> exports \<open>c\<close>.\<close>

definition collision_env :: env where
  "collision_env =
     \<lparr>readdir = (\<lambda>d. Inr [''a.ts'', ''a_b.ts'']),
      stat = (\<lambda>p. None),
      importModule = (\<lambda>u. if u = ''file:///t/a.ts'' then Inr [(''b_c'', echo_tool)]
                           else if u = ''file:///t/a_b.ts'' then Inr [(''c'', failing_tool)]
                           else Inl (JObj [(''message'', JStr ''Cannot find module'')])),
      dateNow = (\<lambda>f. 7),
      sendToolListChanged = Resolves\<rparr>"

definition collided :: state where
  "collided = final (loadToolFile cfg_cold collision_env ''a_b.ts''
                      (final (loadToolFile cfg_cold collision_env ''a.ts'' init)))"

text \<open>The same tool with an \<open>args\<close> object that has no keys, and without \<open>args\<close>.\<close>

definition empty_args_tool :: jsvalue where
  "empty_args_tool = JObj [(''description'', JStr ''Echo''),
                           (''args'', JObj []),
                           (''execute'', JFun (\<lambda>args extra. Inr args))]"

definition no_args_tool :: jsvalue where
  "no_args_tool = JObj [(''description'', JStr ''Echo''),
                        (''execute'', JFun (\<lambda>args extra. Inr args))]"


text \<open>All watcher events of a list, delivered in order.\<close>

definition watch_all :: "(string \<times> string option) list \<Rightarrow> state \<Rightarrow> state" where
  "watch_all evs st = fold (\<lambda>(t, fn). watch_callback t fn) evs st"

text \<open>
  A directory in which \<open>x.ts\<close> fails during initialization and \<open>y.ts\<close> exports a
  tool. In \<open>null_env\<close> the value \<open>x.ts\<close> throws is \<open>null\<close> (as a top-level
  \<open>throw null\<close>, or \<open>await Promise.reject()\<close> with \<open>undefined\<close>); in \<open>error_env\<close>
  it is an object with a message.
\<close>

definition failing_dir :: "jsvalue \<Rightarrow> env" where
  "failing_dir thrown =
     \<lparr>readdir = (\<lambda>d. Inr [''x.ts'', ''y.ts'']),
      stat = (\<lambda>p. None),
      importModule = (\<lambda>u. if u = ''file:///t/y.ts?t=7'' then Inr [(''tool'', echo_tool)]
                           else Inl thrown),
      dateNow = (\<lambda>f. 7),
      sendToolListChanged = Resolves\<rparr>"

definition null_env :: env where
  "null_env = failing_dir JNull"

definition error_env :: env where
  "error_env = failing_dir (JObj [(''message'', JStr ''init failed'')])"

text \<open>A tool with an argument schema whose \<open>execute\<close> throws its arguments.\<close>

definition rethrowing_tool :: jsvalue where
  "rethrowing_tool = JObj [(''description'', JStr ''Rethrows''),
                           (''args'', JObj [(''text'', JObj [])]),
                           (''execute'', JFun (\<lambda>args extra. Inl args))]"








text \<open>
  The same directory when the value \<open>x.ts\<close> throws is \<open>undefined\<close>, and a window of
  events in which \<open>x.ts\<close> is named three times and \<open>y.ts\<close> twice.
\<close>

definition undefined_env :: env where
  "undefined_env = failing_dir JUndefined"

definition xy_events :: "(string \<times> string option) list" where
  "xy_events = [(''change'', Some ''x.ts''), (''change'', Some ''y.ts''), (''change'', Some ''x.ts''),
                (''rename'', Some ''y.ts''), (''change'', Some ''x.ts'')]"




text \<open>
  A working directory \<open>/w\<close> whose default tool directory holds \<open>math.ts\<close> with one
  tool \<open>add\<close>; no other directory exists.
\<close>

definition cli_env :: env where
  "cli_env =
     \<lparr>readdir = (\<lambda>d. if d = ''/w/.claude/tool'' then Inr [''math.ts'']
                      else Inl (JObj [(''code'', JStr ''ENOENT'')])),
      stat = (\<lambda>p. None),
      importModule = (\<lambda>u. if u = ''file:///w/.claude/tool/math.ts?t=7''
                              \<or> u = ''file:///w/.claude/tool/math.ts''
                           then Inr [(''add'', echo_tool)]
                           else Inl (JObj [(''message'', JStr ''Cannot find module'')])),
      dateNow = (\<lambda>f. 7),
      sendToolListChanged = Resolves\<rparr>"

section \<open>Facts about the registry\<close>


lemma emit_fields [simp]:
  "registeredTools (emit e st) = registeredTools st"
  "serverTools (emit e st) = serverTools st"
  "pendingReloads (emit e st) = pendingReloads st"
  "reloadTimeout (emit e st) = reloadTimeout st"
  "trace (emit e st) = trace st @ [e]"
  by (simp_all add: emit_def)

lemma owned_emit [simp]: "owned (emit e st) b = owned st b"
  by (simp add: owned_def)

lemma fold_delete:
  "fold (\<lambda>name t. t(name := None)) ns t n = (if n \<in> set ns then None else t n)"
  by (induction ns arbitrary: t) auto

lemma unregister_registeredTools:
  "registeredTools (unregisterFileTools file st) = (registeredTools st)(strip_ext file := None)"
  by (auto simp: unregisterFileTools_def Let_def split: option.splits)

lemma unregister_serverTools:
  "serverTools (unregisterFileTools file st) n =
     (if n \<in> set (owned st (strip_ext file)) then None else serverTools st n)"
  by (simp add: unregisterFileTools_def Let_def owned_def fold_delete split: option.splits)

lemma unregister_scheduler [simp]:
  "pendingReloads (unregisterFileTools file st) = pendingReloads st"
  "reloadTimeout (unregisterFileTools file st) = reloadTimeout st"
  by (simp_all add: unregisterFileTools_def Let_def split: option.splits)

lemma loads_in_append [simp]: "loads_in (xs @ ys) = loads_in xs @ loads_in ys"
  by (induction xs rule: loads_in.induct) simp_all

lemma sends_in_append [simp]: "sends_in (xs @ ys) = sends_in xs + sends_in ys"
  by (induction xs rule: sends_in.induct) simp_all

lemma unregister_trace:
  "\<exists>es. trace (unregisterFileTools file st) = trace st @ es \<and> loads_in es = [] \<and> sends_in es = 0"
  by (simp add: unregisterFileTools_def Let_def split: option.splits)

lemma owned_unregister:
  "owned (unregisterFileTools file st) b = (if b = strip_ext file then [] else owned st b)"
  by (simp add: owned_def unregister_registeredTools)

lemma registerTool_registeredTools:
  "registeredTools (registerTool name tool b st) = (registeredTools st)(b \<mapsto> set_add name (owned st b))"
  by (auto simp: registerTool_def Let_def server_tool_def owned_def set_add_def split: option.splits)

lemma registerTool_serverTools:
  "serverTools (registerTool name tool b st) = (serverTools st)(name \<mapsto> registered_entry tool)"
  by (simp add: registerTool_def Let_def server_tool_def registered_entry_def)

lemma registerTool_scheduler [simp]:
  "pendingReloads (registerTool name tool b st) = pendingReloads st"
  "reloadTimeout (registerTool name tool b st) = reloadTimeout st"
  by (simp_all add: registerTool_def Let_def server_tool_def)

lemma registerTool_trace [simp]:
  "trace (registerTool name tool b st) = trace st @ [LogRegistering name]"
  by (simp add: registerTool_def Let_def server_tool_def)

lemma owned_registerTool:
  "owned (registerTool name tool b st) b' = (if b' = b then set_add name (owned st b) else owned st b')"
  by (simp add: owned_def registerTool_registeredTools)







lemma set_set_add [simp]: "set (set_add x xs) = insert x (set xs)"
  by (auto simp: set_add_def)

lemma distinct_set_add [simp]: "distinct (set_add x xs) = distinct xs"
  by (auto simp: set_add_def)

lemma named_names_Cons:
  "named_names b ((k, v) # es) =
     (if k \<noteq> ''default'' \<and> isToolDefinition v then (b @ ''_'' @ k) # named_names b es
      else named_names b es)"
  by (simp add: named_names_def)

lemma named_names_Nil [simp]: "named_names b [] = []"
  by (simp add: named_names_def)

lemma register_named_owned:
  "set (owned (register_named b es st) b) = set (owned st b) \<union> set (named_names b es)"
proof (induction es arbitrary: st)
  case Nil
  show ?case by simp
next
  case (Cons a es)
  obtain k v where a: "a = (k, v)" by (cases a)
  show ?case
    unfolding a by (simp add: Cons.IH named_names_Cons owned_registerTool)
qed

lemma register_named_owned_other:
  "b' \<noteq> b \<Longrightarrow> owned (register_named b es st) b' = owned st b'"
  by (induction es arbitrary: st) (auto simp: owned_registerTool)

lemma register_named_scheduler [simp]:
  "pendingReloads (register_named b es st) = pendingReloads st"
  "reloadTimeout (register_named b es st) = reloadTimeout st"
  by (induction es arbitrary: st) auto

lemma register_named_loads [simp]:
  "loads_in (trace (register_named b es st)) = loads_in (trace st)"
  by (induction es arbitrary: st) auto

lemma register_named_sends [simp]:
  "sends_in (trace (register_named b es st)) = sends_in (trace st)"
  by (induction es arbitrary: st) auto

lemma register_named_frame:
  "n \<notin> set (named_names b es) \<Longrightarrow> serverTools (register_named b es st) n = serverTools st n"
proof (induction es arbitrary: st)
  case Nil
  show ?case by simp
next
  case (Cons a es)
  obtain k v where a: "a = (k, v)" by (cases a)
  from Cons.prems have "n \<notin> set (named_names b es)"
    unfolding a by (simp add: named_names_Cons split: if_splits)
  moreover from Cons.prems have "k \<noteq> ''default'' \<and> isToolDefinition v \<Longrightarrow> n \<noteq> b @ ''_'' @ k"
    unfolding a by (auto simp: named_names_Cons)
  ultimately show ?case
    unfolding a by (simp add: Cons.IH registerTool_serverTools)
qed

lemma in_fst_iff: "k \<in> fst ` set ps \<longleftrightarrow> (\<exists>v. map_of ps k = Some v)"
  using map_of_eq_None_iff [of ps k] by (cases "map_of ps k") auto

lemma register_named_bound:
  "distinct (map fst es) \<Longrightarrow> (k, v) \<in> set es \<Longrightarrow> k \<noteq> ''default'' \<Longrightarrow> isToolDefinition v \<Longrightarrow>
   serverTools (register_named b es st) (b @ ''_'' @ k) = Some (registered_entry v)"
proof (induction es arbitrary: st)
  case Nil
  then show ?case by simp
next
  case (Cons a es)
  obtain k' v' where a: "a = (k', v')" by (cases a)
  show ?case
  proof (cases "k' = k")
    case True
    with Cons.prems a have v': "v' = v" and notin: "k \<notin> fst ` set es"
      by (auto simp: rev_image_eqI)
    have "b @ ''_'' @ k \<notin> set (named_names b es)"
      using notin by (auto simp: named_names_def rev_image_eqI)
    then show ?thesis
      using Cons.prems a True v'
      by (simp add: register_named_frame registerTool_serverTools)
  next
    case False
    with Cons.prems a have "(k, v) \<in> set es" "distinct (map fst es)" by auto
    then show ?thesis
      using Cons.IH Cons.prems a by simp
  qed
qed

lemma isToolDefinition_iff:
  "isToolDefinition v \<longleftrightarrow>
     (\<exists>ps d f. v = JObj ps \<and> map_of ps ''description'' = Some (JStr d) \<and>
               map_of ps ''execute'' = Some (JFun f))"
proof (cases v)
  case (JObj ps)
  have str: "typeof x = ''string'' \<longleftrightarrow> (\<exists>d. x = JStr d)" for x :: "'a jsval"
    by (cases x) auto
  have fn: "typeof x = ''function'' \<longleftrightarrow> (\<exists>f. x = JFun f)" for x :: "'a jsval"
    by (cases x) auto
  show ?thesis
    unfolding isToolDefinition_def JObj
    by (auto simp: str fn in_fst_iff split: option.splits)
qed (auto simp: isToolDefinition_def)

lemma isToolDefinition_truthy: "isToolDefinition v \<Longrightarrow> truthy v"
  by (auto simp: isToolDefinition_iff)


lemma loadToolFile_ineligible:
  "\<not> eligible file \<Longrightarrow> loadToolFile cfg env file st = Returned (emit (CallLoadToolFile file) st)"
  by (simp add: loadToolFile_def loadToolFile_begin_def eligible_def Let_def)

lemma loadToolFile_eligible:
  "eligible file \<Longrightarrow>
   loadToolFile cfg env file st =
     (let st1 = unregisterFileTools file (emit (CallLoadToolFile file) st);
          b = strip_ext file
      in case load_result cfg env file of
           Inl e \<Rightarrow> load_failed file e st1
         | Inr m \<Rightarrow>
             Returned (register_named b m
               (if isToolDefinition (get (JObj m) ''default'')
                then registerTool b (get (JObj m) ''default'') b st1 else st1)))"
  by (auto simp: loadToolFile_def loadToolFile_begin_def loadToolFile_resume_def eligible_def
                 load_result_def requested_url_def Let_def isToolDefinition_truthy
           split: option.splits sum.splits)

lemma final_load_failed_registry [simp]:
  "registeredTools (final (load_failed file e st)) = registeredTools st"
  "serverTools (final (load_failed file e st)) = serverTools st"
  "pendingReloads (final (load_failed file e st)) = pendingReloads st"
  "reloadTimeout (final (load_failed file e st)) = reloadTimeout st"
  by (simp_all add: load_failed_def read_prop_def)

lemma final_load_failed_owned [simp]: "owned (final (load_failed file e st)) b = owned st b"
  by (simp add: owned_def)

lemma final_load_failed_trace:
  "loads_in (trace (final (load_failed file e st))) = loads_in (trace st)"
  "sends_in (trace (final (load_failed file e st))) = sends_in (trace st)"
  by (simp_all add: load_failed_def read_prop_def)

lemma returned_load_failed: "returned (load_failed file e st) = (\<not> nullish e)"
  by (simp add: load_failed_def read_prop_def)

lemma returned_loadToolFile: "returned (loadToolFile cfg env file st) = (\<not> load_rejects cfg env file)"
  by (cases "eligible file")
     (auto simp: loadToolFile_ineligible loadToolFile_eligible load_rejects_def Let_def
                 returned_load_failed split: sum.splits)

lemma unregister_loads [simp]:
  "loads_in (trace (unregisterFileTools file st)) = loads_in (trace st)"
  "sends_in (trace (unregisterFileTools file st)) = sends_in (trace st)"
  by (simp_all add: unregisterFileTools_def Let_def split: option.splits)

lemma loadToolFile_loads:
  "loads_in (trace (final (loadToolFile cfg env file st))) = loads_in (trace st) @ [file]"
  by (cases "eligible file")
     (auto simp: loadToolFile_ineligible loadToolFile_eligible Let_def final_load_failed_trace
           split: sum.splits)

lemma loadToolFile_sends:
  "sends_in (trace (final (loadToolFile cfg env file st))) = sends_in (trace st)"
  by (cases "eligible file")
     (auto simp: loadToolFile_ineligible loadToolFile_eligible Let_def final_load_failed_trace
           split: sum.splits)

lemma loadToolFile_scheduler:
  "pendingReloads (final (loadToolFile cfg env file st)) = pendingReloads st"
  "reloadTimeout (final (loadToolFile cfg env file st)) = reloadTimeout st"
  by (cases "eligible file";
      auto simp: loadToolFile_ineligible loadToolFile_eligible Let_def split: sum.splits)+

lemma base_not_named: "b \<notin> set (named_names b es)"
  by (auto simp: named_names_def)

lemma loadToolFile_owned:
  assumes "eligible file"
  shows "set (owned (final (loadToolFile cfg env file st)) (strip_ext file)) =
     (case load_result cfg env file of
        Inl e \<Rightarrow> {}
      | Inr m \<Rightarrow> (if isToolDefinition (get (JObj m) ''default'') then {strip_ext file} else {})
                 \<union> set (named_names (strip_ext file) m))"
  using assms
  by (auto simp: loadToolFile_eligible Let_def owned_unregister register_named_owned
                 owned_registerTool split: sum.splits)

lemma derived_names_split:
  assumes "distinct (map fst m)"
  shows "set (derived_names b m) =
     (if isToolDefinition (get (JObj m) ''default'') then {b} else {}) \<union> set (named_names b m)"
proof -
  have dflt: "isToolDefinition (get (JObj m) ''default'') \<longleftrightarrow>
              (\<exists>v. (''default'', v) \<in> set m \<and> isToolDefinition v)"
  proof (cases "map_of m ''default''")
    case None
    then have "\<And>v. (''default'', v) \<notin> set m"
      using assms by (metis map_of_eq_Some_iff option.distinct(1))
    with None show ?thesis by (simp add: isToolDefinition_def)
  next
    case (Some w)
    then have "\<And>v. (''default'', v) \<in> set m \<longleftrightarrow> v = w"
      using assms by (metis map_of_eq_Some_iff option.inject)
    with Some show ?thesis by simp
  qed
  let ?A = "{x \<in> set m. isToolDefinition (snd x) \<and> fst x = ''default''}"
  let ?B = "{x \<in> set m. isToolDefinition (snd x) \<and> fst x \<noteq> ''default''}"
  have "set (derived_names b m) = (\<lambda>x. capability_name b (fst x)) ` (?A \<union> ?B)"
    by (auto simp: derived_names_def image_iff case_prod_unfold)
  moreover have "(\<lambda>x. capability_name b (fst x)) ` ?B = set (named_names b m)"
    by (auto simp: named_names_def capability_name_def image_iff case_prod_unfold)
  moreover have "(\<lambda>x. capability_name b (fst x)) ` ?A =
      (if \<exists>v. (''default'', v) \<in> set m \<and> isToolDefinition v then {b} else {})"
    by (auto simp: capability_name_def image_iff)
  ultimately show ?thesis
    unfolding dflt by (simp add: image_Un)
qed


section \<open>Facts about loading, and the example directory\<close>


lemma dec_7: "dec 7 = ''7''"
  by (simp add: dec.simps digit_def)

lemma example_load_result:
  "load_result cfg_hot example_env ''math.ts'' = Inr math_module"
  by (simp add: load_result_def requested_url_def example_env_def cfg_hot_def join_def
        pathToFileURL_def import_url_def dec_7)

lemma eligible_math: "eligible ''math.ts''"
  by (simp add: eligible_def endsWith_def)

lemma strip_math: "strip_ext ''math.ts'' = ''math''"
  by (simp add: strip_ext_def endsWith_def)

lemma tools_examples [simp]:
  "isToolDefinition echo_tool" "isToolDefinition failing_tool" "\<not> isToolDefinition no_description"
  "\<not> isToolDefinition (JNum 1 :: jsvalue)"
  by (simp_all add: isToolDefinition_def echo_tool_def failing_tool_def no_description_def)

lemma derived_math: "derived_names ''math'' math_module = [''math_add'', ''math'']"
  by (simp add: derived_names_def math_module_def capability_name_def)

lemma strip_ext_append:
  "ext = ''.ts'' \<or> ext = ''.js'' \<Longrightarrow> strip_ext (b @ ext) = b"
  by (auto simp: strip_ext_def endsWith_def)

lemma eligible_append:
  "ext = ''.ts'' \<or> ext = ''.js'' \<Longrightarrow> eligible (b @ ext)"
  by (auto simp: eligible_def endsWith_def)

lemma get_default:
  "distinct (map fst m) \<Longrightarrow> (''default'', v) \<in> set m \<Longrightarrow> get (JObj m) ''default'' = v"
  by simp

lemma loadToolFile_module:
  assumes "eligible file" and "load_result cfg env file = Inr m"
  shows "loadToolFile cfg env file st =
     Returned (register_named (strip_ext file) m
       (if isToolDefinition (get (JObj m) ''default'')
        then registerTool (strip_ext file) (get (JObj m) ''default'') (strip_ext file)
               (unregisterFileTools file (emit (CallLoadToolFile file) st))
        else unregisterFileTools file (emit (CallLoadToolFile file) st)))"
  using assms by (simp add: loadToolFile_eligible Let_def)

lemma capability_name_inj: "capability_name b k = capability_name b k' \<longleftrightarrow> k = k'"
  by (auto simp: capability_name_def)

lemma derived_names_iff:
  assumes "distinct (map fst m)" and "(k, v) \<in> set m"
  shows "capability_name b k \<in> set (derived_names b m) \<longleftrightarrow> isToolDefinition v"
proof
  assume "capability_name b k \<in> set (derived_names b m)"
  then obtain k' v' where kv': "(k', v') \<in> set m" "isToolDefinition v'"
    and eq: "capability_name b k = capability_name b k'"
    by (auto simp: derived_names_def)
  from eq have "k' = k" by (simp add: capability_name_inj)
  with kv'(1) assms have "v' = v"
    by (metis map_of_eq_Some_iff option.inject)
  with kv'(2) show "isToolDefinition v" by simp
next
  assume "isToolDefinition v"
  with assms(2) show "capability_name b k \<in> set (derived_names b m)"
    by (force simp: derived_names_def)
qed

lemma loadToolFile_frame:
  assumes "eligible file" and "distinct (map fst (current_exports cfg env file))"
      and "n \<notin> set (derived_names (strip_ext file) (current_exports cfg env file))"
  shows "serverTools (final (loadToolFile cfg env file st)) n =
           (if n \<in> set (owned st (strip_ext file)) then None else serverTools st n)"
proof (cases "load_result cfg env file")
  case (Inl e)
  with assms(1) show ?thesis
    by (simp add: loadToolFile_eligible Let_def unregister_serverTools)
next
  case (Inr m)
  with assms have dist: "distinct (map fst m)"
    and n: "n \<notin> set (derived_names (strip_ext file) m)"
    by (simp_all add: current_exports_def)
  from n have "n \<notin> set (named_names (strip_ext file) m)"
    and "isToolDefinition (get (JObj m) ''default'') \<Longrightarrow> n \<noteq> strip_ext file"
    unfolding derived_names_split [OF dist] by (auto split: if_splits)
  then show ?thesis
    using loadToolFile_module [OF assms(1) Inr, of st]
    by (simp add: register_named_frame registerTool_serverTools unregister_serverTools)
qed

lemma owned_after_load:
  assumes "eligible file" and "distinct (map fst (current_exports cfg env file))"
  shows "set (owned (final (loadToolFile cfg env file st)) (strip_ext file))
           = set (derived_names (strip_ext file) (current_exports cfg env file))"
proof (cases "load_result cfg env file")
  case (Inl e)
  then show ?thesis
    using loadToolFile_owned [OF assms(1), of cfg env st]
    by (simp add: current_exports_def derived_names_def)
next
  case (Inr m)
  with assms(2) have "distinct (map fst m)" by (simp add: current_exports_def)
  then show ?thesis
    using loadToolFile_owned [OF assms(1), of cfg env st] Inr
    by (simp add: current_exports_def derived_names_split)
qed

lemma bound_after_load:
  assumes el: "eligible file" and load: "load_result cfg env file = Inr m"
      and dist: "distinct (map fst m)" and kv: "(k, v) \<in> set m" and ok: "isToolDefinition v"
  shows "serverTools (final (loadToolFile cfg env file st)) (capability_name (strip_ext file) k)
           = Some (registered_entry v)"
proof (cases "k = ''default''")
  case True
  with dist kv have "get (JObj m) ''default'' = v" by (simp add: get_default)
  with ok True show ?thesis
    using loadToolFile_module [OF el load, of st]
    by (simp add: capability_name_def register_named_frame base_not_named registerTool_serverTools)
next
  case False
  then show ?thesis
    using loadToolFile_module [OF el load, of st] register_named_bound [OF dist kv False ok]
    by (simp add: capability_name_def)
qed

lemma eligible_a: "eligible ''a.ts''" "eligible ''a_b.ts''"
  by (simp_all add: eligible_def endsWith_def)

lemma strip_a: "strip_ext ''a.ts'' = ''a''" "strip_ext ''a_b.ts'' = ''a_b''"
  by (simp_all add: strip_ext_def endsWith_def)

lemma collision_load_result:
  "load_result cfg_cold collision_env ''a.ts'' = Inr [(''b_c'', echo_tool)]"
  "load_result cfg_cold collision_env ''a_b.ts'' = Inr [(''c'', failing_tool)]"
  by (simp_all add: load_result_def requested_url_def collision_env_def cfg_cold_def join_def
        pathToFileURL_def import_url_def)

lemma isToolDefinition_undefined [simp]: "\<not> isToolDefinition JUndefined"
  by (simp add: isToolDefinition_def)

lemma collided_facts:
  "owned collided ''a'' = [''a_b_c'']"
  "owned collided ''a_b'' = [''a_b_c'']"
  "serverTools collided ''a_b_c'' = Some (registered_entry failing_tool)"
  unfolding collided_def
  by (simp_all add: loadToolFile_module eligible_a collision_load_result strip_a
        owned_registerTool owned_unregister registerTool_serverTools
        unregister_serverTools owned_def init_def set_add_def registerTool_registeredTools
        unregister_registeredTools emit_def)

lemma invoke_registered_entry:
  "invoke (registered_entry tool) args extra =
     respond (call_execute tool
       (if truthy (get tool ''args'') \<and> object_keys (get tool ''args'') \<noteq> [] then args else JObj [])
       extra)"
  by (simp add: invoke_def registered_entry_def Let_def)

lemma call_tool_registerTool:
  "call_tool (registerTool name tool b st) name args extra
     = Some (invoke (registered_entry tool) args extra)"
  by (simp add: call_tool_def registerTool_serverTools)




lemma loadToolFile_cong:
  assumes "toolDir cfg = toolDir cfg'"
      and "importModule env (requested_url cfg env file) = importModule env (requested_url cfg' env file)"
  shows "loadToolFile cfg env file st = loadToolFile cfg' env file st"
proof (cases "eligible file")
  case True
  have "load_result cfg env file = load_result cfg' env file"
    unfolding load_result_def assms(1) assms(2) ..
  with True show ?thesis by (simp add: loadToolFile_eligible)
next
  case False
  then show ?thesis by (simp add: loadToolFile_ineligible)
qed

lemma load_each_cong:
  assumes "toolDir cfg = toolDir cfg'"
      and "list_all (\<lambda>file. importModule env (requested_url cfg env file)
                           = importModule env (requested_url cfg' env file)) files"
  shows "load_each cfg env files st = load_each cfg' env files st"
  using assms(2)
proof (induction files arbitrary: st)
  case Nil
  show ?case by simp
next
  case (Cons f files)
  then have "loadToolFile cfg env f st = loadToolFile cfg' env f st"
    using loadToolFile_cong [OF assms(1)] by simp
  with Cons show ?case by (simp split: outcome.splits)
qed

lemma run_cold: "\<not> hotReload cfg \<Longrightarrow> run cfg inputs st = Returned st"
  by (induction inputs) (auto simp: step_def split: input.splits)

section \<open>Facts about the scheduler\<close>

lemma eligible_nonempty: "eligible f \<Longrightarrow> f \<noteq> []"
  by (auto simp: eligible_def endsWith_def)

lemma watch_callback_eq:
  "watch_callback t fn st =
     (case fn of
        Some f \<Rightarrow>
          if eligible f
          then (emit (LogScheduling f) (emit (LogWatcherEvent t fn) st))
                 \<lparr>pendingReloads := set_add f (pendingReloads st), reloadTimeout := Armed\<rparr>
          else emit (LogWatcherEvent t fn) st
      | None \<Rightarrow> emit (LogWatcherEvent t fn) st)"
  using eligible_nonempty
  by (auto simp: watch_callback_def Let_def scheduleReload_def eligible_def split: option.splits)

lemma watch_callback_fields:
  "registeredTools (watch_callback t fn st) = registeredTools st"
  "serverTools (watch_callback t fn st) = serverTools st"
  "loads_in (trace (watch_callback t fn st)) = loads_in (trace st)"
  "sends_in (trace (watch_callback t fn st)) = sends_in (trace st)"
  "pendingReloads (watch_callback t fn st) = fold set_add (scheduled [(t, fn)]) (pendingReloads st)"
  "reloadTimeout (watch_callback t fn st) = (if scheduled [(t, fn)] = [] then reloadTimeout st else Armed)"
  by (simp_all add: watch_callback_eq scheduled_def split: option.splits)

lemma scheduled_Cons: "scheduled (ev # evs) = scheduled [ev] @ scheduled evs"
  by (simp add: scheduled_def)

lemma watch_all_Cons: "watch_all ((t, fn) # evs) st = watch_all evs (watch_callback t fn st)"
  by (simp add: watch_all_def)

lemma watch_all_Nil: "watch_all [] st = st"
  by (simp add: watch_all_def)

lemma watch_all_registry:
  "registeredTools (watch_all evs st) = registeredTools st \<and>
   serverTools (watch_all evs st) = serverTools st \<and>
   loads_in (trace (watch_all evs st)) = loads_in (trace st) \<and>
   sends_in (trace (watch_all evs st)) = sends_in (trace st)"
proof (induction evs arbitrary: st)
  case Nil
  show ?case by (simp add: watch_all_Nil)
next
  case (Cons ev evs)
  obtain t fn where ev: "ev = (t, fn)" by (cases ev)
  show ?case
    unfolding ev watch_all_Cons using Cons.IH [of "watch_callback t fn st"]
    by (simp add: watch_callback_fields)
qed

lemma watch_all_pending:
  "pendingReloads (watch_all evs st) = fold set_add (scheduled evs) (pendingReloads st)"
proof (induction evs arbitrary: st)
  case Nil
  show ?case by (simp add: watch_all_Nil scheduled_def)
next
  case (Cons ev evs)
  obtain t fn where ev: "ev = (t, fn)" by (cases ev)
  show ?case
    unfolding ev watch_all_Cons
    by (subst scheduled_Cons) (simp add: Cons.IH watch_callback_fields)
qed

lemma watch_all_timer:
  "reloadTimeout (watch_all evs st) = (if scheduled evs = [] then reloadTimeout st else Armed)"
proof (induction evs arbitrary: st)
  case Nil
  show ?case by (simp add: watch_all_Nil scheduled_def)
next
  case (Cons ev evs)
  obtain t fn where ev: "ev = (t, fn)" by (cases ev)
  show ?case
    unfolding ev watch_all_Cons
    by (subst scheduled_Cons) (simp add: Cons.IH watch_callback_fields)
qed

lemma run_append:
  "run cfg (xs @ ys) st =
     (case run cfg xs st of Rejected e st' \<Rightarrow> Rejected e st' | Returned st' \<Rightarrow> run cfg ys st')"
  by (induction xs arbitrary: st) (auto split: outcome.splits)

lemma run_fs_events:
  "hotReload cfg \<Longrightarrow> run cfg (map (\<lambda>(t, fn). FsEvent t fn) evs) st = Returned (watch_all evs st)"
proof (induction evs arbitrary: st)
  case Nil
  show ?case by (simp add: watch_all_Nil)
next
  case (Cons ev evs)
  obtain t fn where ev: "ev = (t, fn)" by (cases ev)
  show ?case
    unfolding ev watch_all_Cons using Cons by (simp add: step_def)
qed

lemma fold_set_add:
  "distinct xs \<Longrightarrow> distinct (fold set_add ys xs) \<and> set (fold set_add ys xs) = set xs \<union> set ys"
  by (induction ys arbitrary: xs) auto

lemma set_scheduled: "set (scheduled evs) = {f. eligible f \<and> Some f \<in> snd ` set evs}"
  by (auto simp: scheduled_def image_iff split: option.splits if_splits) force

lemma batch_of_facts:
  "distinct (batch_of evs)" "set (batch_of evs) = {f. eligible f \<and> Some f \<in> snd ` set evs}"
  "batch_of evs = [] \<longleftrightarrow> scheduled evs = []"
  using fold_set_add [of "[]" "scheduled evs"]
  by (auto simp: batch_of_def set_scheduled simp flip: set_empty)

lemma load_each_returned:
  assumes "\<forall>f \<in> set fs. \<not> load_rejects cfg env f"
  shows "returned (load_each cfg env fs st)
       \<and> loads_in (trace (final (load_each cfg env fs st))) = loads_in (trace st) @ fs
       \<and> sends_in (trace (final (load_each cfg env fs st))) = sends_in (trace st)
       \<and> pendingReloads (final (load_each cfg env fs st)) = pendingReloads st
       \<and> reloadTimeout (final (load_each cfg env fs st)) = reloadTimeout st"
  using assms
proof (induction fs arbitrary: st)
  case Nil
  show ?case by simp
next
  case (Cons f fs)
  from Cons.prems have "returned (loadToolFile cfg env f st)"
    by (simp add: returned_loadToolFile)
  then obtain st1 where st1: "loadToolFile cfg env f st = Returned st1"
    by (cases "loadToolFile cfg env f st") auto
  have f1: "loads_in (trace st1) = loads_in (trace st) @ [f]" "sends_in (trace st1) = sends_in (trace st)"
    "pendingReloads st1 = pendingReloads st" "reloadTimeout st1 = reloadTimeout st"
    using loadToolFile_loads [of cfg env f st] loadToolFile_sends [of cfg env f st]
      loadToolFile_scheduler [of cfg env f st] st1 by simp_all
  from Cons.prems have "\<forall>f \<in> set fs. \<not> load_rejects cfg env f" by simp
  from Cons.IH [OF this, of st1] show ?case
    by (simp add: st1 f1)
qed

lemma send_list_changed_fields:
  "pendingReloads (send_list_changed env st) = pendingReloads st"
  "loads_in (trace (send_list_changed env st)) = loads_in (trace st)"
  "sends_in (trace (send_list_changed env st))
     = sends_in (trace st) + (if sendToolListChanged env \<noteq> NotAvailable then 1 else 0)"
  by (simp_all add: send_list_changed_def split: send_method.splits)

lemma send_list_changed_registry:
  "serverTools (send_list_changed env st) = serverTools st"
  "registeredTools (send_list_changed env st) = registeredTools st"
  by (simp_all add: send_list_changed_def split: send_method.splits)

lemma send_list_changed_trace:
  "sendToolListChanged env \<noteq> NotAvailable \<Longrightarrow>
   \<exists>post. trace (send_list_changed env st) = trace st @ SendToolListChanged # post \<and> loads_in post = []"
  by (cases "sendToolListChanged env") (simp_all add: send_list_changed_def)

lemma reload_batch_ok:
  assumes "\<forall>f \<in> set (pendingReloads st). \<not> load_rejects cfg env f"
  shows "\<exists>st'. reload_batch cfg env st = Returned st'
     \<and> loads_in (trace st') = loads_in (trace st) @ pendingReloads st
     \<and> sends_in (trace st') = sends_in (trace st)
          + (if pendingReloads st \<noteq> [] \<and> sendToolListChanged env \<noteq> NotAvailable then 1 else 0)
     \<and> pendingReloads st' = []
     \<and> (pendingReloads st \<noteq> [] \<and> sendToolListChanged env \<noteq> NotAvailable \<longrightarrow>
          (\<exists>pre post. trace st' = pre @ SendToolListChanged # post
             \<and> loads_in pre = loads_in (trace st) @ pendingReloads st \<and> loads_in post = []))"
proof -
  let ?P = "pendingReloads st"
  let ?st1 = "st\<lparr>pendingReloads := []\<rparr>"
  note L = load_each_returned [OF assms, of ?st1]
  from L have "returned (load_each cfg env ?P ?st1)" by blast
  then obtain s2 where ret: "load_each cfg env ?P ?st1 = Returned s2"
    by (cases "load_each cfg env ?P ?st1") simp_all
  from L have loads: "loads_in (trace s2) = loads_in (trace st) @ ?P"
    and sends: "sends_in (trace s2) = sends_in (trace st)"
    and pend: "pendingReloads s2 = []" by (simp_all add: ret)
  show ?thesis
  proof (cases "?P = []")
    case True
    have "reload_batch cfg env st = Returned s2"
      using True ret by (simp add: reload_batch_def Let_def)
    then show ?thesis
      using loads sends pend True by simp
  next
    case False
    let ?s3 = "send_list_changed env (emit LogSendingNotification s2)"
    have rb: "reload_batch cfg env st = Returned ?s3"
      unfolding reload_batch_def Let_def ret using False by simp
    have order: "\<exists>pre post. trace ?s3 = pre @ SendToolListChanged # post
             \<and> loads_in pre = loads_in (trace st) @ ?P \<and> loads_in post = []"
      if av: "sendToolListChanged env \<noteq> NotAvailable"
    proof -
      from send_list_changed_trace [OF av, of "emit LogSendingNotification s2"]
      obtain post where post: "trace ?s3 = trace (emit LogSendingNotification s2) @ SendToolListChanged # post"
        and lp: "loads_in post = []" by blast
      have "loads_in (trace (emit LogSendingNotification s2)) = loads_in (trace st) @ ?P"
        using loads by simp
      with post lp show ?thesis by blast
    qed
    have "loads_in (trace ?s3) = loads_in (trace st) @ ?P"
      using loads by (simp add: send_list_changed_fields)
    moreover have "sends_in (trace ?s3) = sends_in (trace st)
          + (if ?P \<noteq> [] \<and> sendToolListChanged env \<noteq> NotAvailable then 1 else 0)"
      using sends False by (simp add: send_list_changed_fields)
    moreover have "pendingReloads ?s3 = []"
      using pend by (simp add: send_list_changed_fields)
    ultimately show ?thesis
      using rb order by blast
  qed
qed

lemma run_timer:
  "run cfg [TimerFires env] st =
     (if hotReload cfg \<and> reloadTimeout st = Armed
      then reload_batch cfg env (st\<lparr>reloadTimeout := Fired\<rparr>) else Returned st)"
  by (simp add: step_def split: outcome.splits)

lemma run_window:
  "hotReload cfg \<Longrightarrow>
   run cfg (map (\<lambda>(t, fn). FsEvent t fn) evs @ [TimerFires env]) st
     = run cfg [TimerFires env] (watch_all evs st)"
  by (simp add: run_append run_fs_events del: run.simps)

lemma eligible_xy: "eligible ''x.ts''" "eligible ''y.ts''"
  by (simp_all add: eligible_def endsWith_def)

lemma strip_xy: "strip_ext ''x.ts'' = ''x''" "strip_ext ''y.ts'' = ''y''"
  by (simp_all add: strip_ext_def endsWith_def)

lemma failing_dir_results:
  "load_result cfg_hot (failing_dir e) ''x.ts'' = Inl e"
  "load_result cfg_hot (failing_dir e) ''y.ts'' = Inr [(''tool'', echo_tool)]"
  by (simp_all add: load_result_def requested_url_def failing_dir_def cfg_hot_def join_def
        pathToFileURL_def import_url_def dec_7)

lemma xy_window:
  "run cfg_hot [FsEvent ''change'' (Some ''x.ts''), FsEvent ''change'' (Some ''y.ts''), TimerFires env] init
     = reload_batch cfg_hot env
         ((watch_all [(''change'', Some ''x.ts''), (''change'', Some ''y.ts'')] init)\<lparr>reloadTimeout := Fired\<rparr>)"
proof -
  have hot: "hotReload cfg_hot" by (simp add: cfg_hot_def)
  have "scheduled [(''change'', Some ''x.ts''), (''change'', Some ''y.ts'')] \<noteq> []"
    by (simp add: scheduled_def eligible_xy)
  then show ?thesis
    using run_window [OF hot, of "[(''change'', Some ''x.ts''), (''change'', Some ''y.ts'')]" env init]
    by (simp add: run_timer hot watch_all_timer del: run.simps)
qed

lemma xy_pending:
  "pendingReloads (watch_all [(''change'', Some ''x.ts''), (''change'', Some ''y.ts'')] init)
     = [''x.ts'', ''y.ts'']"
  by (simp add: watch_all_pending scheduled_def eligible_xy init_def set_add_def)

lemma xy_before:
  "loads_in (trace (watch_all [(''change'', Some ''x.ts''), (''change'', Some ''y.ts'')] init)) = []"
  "sends_in (trace (watch_all [(''change'', Some ''x.ts''), (''change'', Some ''y.ts'')] init)) = 0"
  "serverTools (watch_all [(''change'', Some ''x.ts''), (''change'', Some ''y.ts'')] init) = Map.empty"
  "registeredTools (watch_all [(''change'', Some ''x.ts''), (''change'', Some ''y.ts'')] init) = Map.empty"
  using watch_all_registry [of "[(''change'', Some ''x.ts''), (''change'', Some ''y.ts'')]" init]
  by (simp_all add: init_def)

text \<open>A failed load whose caught value is neither \<open>null\<close> nor \<open>undefined\<close> is contained:
  \<open>loadToolFile\<close> returns, the file owns nothing, and the only trace of the failure is
  one line of the diagnostic stream.\<close>

lemma failure_contained:
  assumes "eligible file" and "load_result cfg env file = Inl e" and "\<not> nullish e"
  shows "\<exists>line. loadToolFile cfg env file st
            = Returned (emit line (unregisterFileTools file (emit (CallLoadToolFile file) st)))
          \<and> (line = LogFileDeleted file \<or> (\<exists>m. line = LogFailedToLoad file m))"
    and "owned (final (loadToolFile cfg env file st)) (strip_ext file) = []"
  using assms
  by (auto simp: loadToolFile_eligible load_failed_def read_prop_def owned_unregister Let_def)

section \<open>Facts about the two stretches of a load\<close>

lemma loadToolFile_begin_eligible:
  "eligible file \<Longrightarrow>
   loadToolFile_begin file st = unregisterFileTools file (emit (CallLoadToolFile file) st)"
  by (auto simp: loadToolFile_begin_def eligible_def Let_def)

lemma loadToolFile_begin_ineligible:
  "\<not> eligible file \<Longrightarrow> loadToolFile_begin file st = emit (CallLoadToolFile file) st"
  by (simp add: loadToolFile_begin_def eligible_def Let_def)

lemma loadToolFile_resume_eq:
  "loadToolFile_resume cfg env file mid =
     (case load_result cfg env file of
        Inl e \<Rightarrow> load_failed file e mid
      | Inr m \<Rightarrow>
          Returned (register_named (strip_ext file) m
            (if isToolDefinition (get (JObj m) ''default'')
             then registerTool (strip_ext file) (get (JObj m) ''default'') (strip_ext file) mid
             else mid)))"
  by (auto simp: loadToolFile_resume_def load_result_def requested_url_def Let_def
                 isToolDefinition_truthy split: option.splits sum.splits)

lemma loadToolFile_split:
  "eligible file \<Longrightarrow>
   loadToolFile cfg env file st = loadToolFile_resume cfg env file (loadToolFile_begin file st)"
  by (auto simp: loadToolFile_def eligible_def Let_def)

lemma owned_begin:
  "eligible file \<Longrightarrow>
   owned (loadToolFile_begin file st) b = (if b = strip_ext file then [] else owned st b)"
  by (simp add: loadToolFile_begin_eligible owned_unregister)

lemma serverTools_begin:
  "eligible file \<Longrightarrow>
   serverTools (loadToolFile_begin file st) n =
     (if n \<in> set (owned st (strip_ext file)) then None else serverTools st n)"
  by (simp add: loadToolFile_begin_eligible unregister_serverTools)


lemma resume_trace:
  "loads_in (trace (final (loadToolFile_resume cfg env file mid))) = loads_in (trace mid)"
  "sends_in (trace (final (loadToolFile_resume cfg env file mid))) = sends_in (trace mid)"
  "pendingReloads (final (loadToolFile_resume cfg env file mid)) = pendingReloads mid"
  "reloadTimeout (final (loadToolFile_resume cfg env file mid)) = reloadTimeout mid"
  by (simp_all add: loadToolFile_resume_eq final_load_failed_trace split: sum.splits)




section \<open>Facts about overlapping callbacks\<close>

lemma suspend_simps [simp]:
  "suspend (st, None) tasks = (st, tasks)"
  "suspend (st, Some t) tasks = (st, tasks @ [t])"
  by (simp_all add: suspend_def)

lemma continue_batch_eligible:
  "eligible f \<Longrightarrow>
   continue_batch env (f # rest) st
     = (loadToolFile_begin f st, Some \<lparr>task_env = env, task_file = f, task_rest = rest\<rparr>)"
  by (auto simp: eligible_def Let_def)

lemma continue_batch_ineligible:
  "\<not> eligible f \<Longrightarrow> continue_batch env (f # rest) st = continue_batch env rest (loadToolFile_begin f st)"
  by (auto simp: eligible_def Let_def)

lemma settle_last:
  "settle cfg (length tasks) st (tasks @ [t]) =
     (case loadToolFile_resume cfg (task_env t) (task_file t) st of
        Rejected e st' \<Rightarrow> Crashed e st' tasks
      | Returned st' \<Rightarrow>
          (case suspend (continue_batch (task_env t) (task_rest t) st') tasks of
             (st'', tasks') \<Rightarrow> Running st'' tasks'))"
  by (simp add: settle_def Let_def)

lemma overlapped_run_append:
  "overlapped_run cfg (xs @ ys) st tasks =
     (case overlapped_run cfg xs st tasks of
        Crashed e st' tasks' \<Rightarrow> Crashed e st' tasks'
      | Running st' tasks' \<Rightarrow> overlapped_run cfg ys st' tasks')"
  by (induction xs arbitrary: st tasks) (auto split: progress.splits)

text \<open>
  A batch whose loads settle one after the other, before anything else happens, does what
  the loop of \<open>reload_batch\<close> does.
\<close>

lemma batch_without_overlap:
  "(case suspend (continue_batch env files st) tasks of
      (st1, tasks1) \<Rightarrow>
        overlapped_run cfg (replicate (length (filter eligible files)) (Settles (length tasks))) st1 tasks1)
   = (case load_each cfg env files st of
        Rejected e s \<Rightarrow> Crashed e s tasks
      | Returned s \<Rightarrow> Running (send_list_changed env (emit LogSendingNotification s)) tasks)"
proof (induction files arbitrary: st)
  case Nil
  show ?case by simp
next
  case (Cons f files)
  show ?case
  proof (cases "eligible f")
    case False
    then show ?thesis
      using Cons.IH [of "loadToolFile_begin f st"]
      by (simp add: continue_batch_ineligible loadToolFile_ineligible loadToolFile_begin_ineligible
               del: continue_batch.simps)
  next
    case True
    show ?thesis
    proof (cases "loadToolFile cfg env f st")
      case (Rejected e s)
      then show ?thesis
        using True
        by (simp add: continue_batch_eligible settle_last tick_step_def loadToolFile_split
                 del: continue_batch.simps)
    next
      case (Returned s)
      then show ?thesis
        using True Cons.IH [of s]
        by (simp add: continue_batch_eligible settle_last tick_step_def loadToolFile_split
                 del: continue_batch.simps split: prod.splits)
    qed
  qed
qed

lemma timer_without_overlap:
  "overlapped_run cfg
     (External (TimerFires env)
        # replicate (if hotReload cfg \<and> reloadTimeout st = Armed
                     then length (filter eligible (pendingReloads st)) else 0)
            (Settles (length tasks))) st tasks
   = (case step cfg (TimerFires env) st of
        Rejected e s \<Rightarrow> Crashed e s tasks
      | Returned s \<Rightarrow> Running s tasks)"
proof (cases "hotReload cfg \<and> reloadTimeout st = Armed")
  case False
  then show ?thesis by (auto simp: tick_step_def step_def)
next
  case True
  show ?thesis
  proof (cases "pendingReloads st = []")
    case empty: True
    with True show ?thesis
      by (simp add: tick_step_def step_def start_batch_def reload_batch_def Let_def)
  next
    case nonempty: False
    with True show ?thesis
      using batch_without_overlap [where env = env and files = "pendingReloads st"
              and st = "st\<lparr>reloadTimeout := Fired, pendingReloads := []\<rparr>"
              and tasks = tasks and cfg = cfg]
      by (simp add: tick_step_def step_def start_batch_def reload_batch_def Let_def
               split: prod.splits outcome.splits)
  qed
qed


subsection \<open>Facts about the two versions of the example module\<close>







lemma owned_fields [simp]:
  "owned (st\<lparr>reloadTimeout := x\<rparr>) b = owned st b"
  "owned (st\<lparr>pendingReloads := y\<rparr>) b = owned st b"
  "owned (watch_callback t fn st) b = owned st b"
  "owned (send_list_changed env st) b = owned st b"
  by (simp_all add: owned_def watch_callback_fields send_list_changed_registry)


section \<open>Facts about a window of events\<close>

text \<open>
  A list of watcher events delivered within one quiescence window (hot reload enabled,
  pending set empty at its start) followed by the timer firing, when no load of the batch
  rejects: the run returns, the batch holds each scheduled file name once, \<open>loadToolFile\<close>
  is entered once for each file of the batch, in order, and a batch that is not empty calls
  \<open>sendToolListChanged\<close> once, after the last load was entered.
\<close>

lemma window_without_rejection:
  assumes hot: "hotReload cfg" and empty: "pendingReloads st = []"
      and ok: "\<forall>f \<in> set (batch_of evs). \<not> load_rejects cfg env f"
  shows "\<exists>st'. run cfg (map (\<lambda>(t, fn). FsEvent t fn) evs @ [TimerFires env]) st = Returned st'
     \<and> distinct (batch_of evs)
     \<and> set (batch_of evs) = {f. eligible f \<and> Some f \<in> snd ` set evs}
     \<and> loads_in (trace st') = loads_in (trace st) @ batch_of evs
     \<and> sends_in (trace st') = sends_in (trace st)
          + (if batch_of evs \<noteq> [] \<and> sendToolListChanged env \<noteq> NotAvailable then 1 else 0)
     \<and> (batch_of evs \<noteq> [] \<and> sendToolListChanged env \<noteq> NotAvailable \<longrightarrow>
          (\<exists>pre post. trace st' = pre @ SendToolListChanged # post
             \<and> loads_in pre = loads_in (trace st) @ batch_of evs \<and> loads_in post = []))
     \<and> pendingReloads st' = []"
proof -
  let ?w = "watch_all evs st"
  let ?B = "batch_of evs"
  have run: "run cfg (map (\<lambda>(t, fn). FsEvent t fn) evs @ [TimerFires env]) st = run cfg [TimerFires env] ?w"
    by (simp add: run_append run_fs_events [OF hot] del: run.simps)
  have pend: "pendingReloads ?w = ?B"
    by (simp add: watch_all_pending empty batch_of_def)
  have wl: "loads_in (trace ?w) = loads_in (trace st)" and ws: "sends_in (trace ?w) = sends_in (trace st)"
    using watch_all_registry [of evs st] by simp_all
  show ?thesis
  proof (cases "reloadTimeout ?w = Armed")
    case True
    let ?f = "?w\<lparr>reloadTimeout := Fired\<rparr>"
    have "\<forall>f \<in> set (pendingReloads ?f). \<not> load_rejects cfg env f"
      using ok pend by simp
    from reload_batch_ok [OF this]
    obtain st' where st': "reload_batch cfg env ?f = Returned st'"
      "loads_in (trace st') = loads_in (trace ?f) @ pendingReloads ?f"
      "sends_in (trace st') = sends_in (trace ?f)
          + (if pendingReloads ?f \<noteq> [] \<and> sendToolListChanged env \<noteq> NotAvailable then 1 else 0)"
      "pendingReloads st' = []"
      "pendingReloads ?f \<noteq> [] \<and> sendToolListChanged env \<noteq> NotAvailable \<longrightarrow>
          (\<exists>pre post. trace st' = pre @ SendToolListChanged # post
             \<and> loads_in pre = loads_in (trace ?f) @ pendingReloads ?f \<and> loads_in post = [])"
      by blast
    have "run cfg (map (\<lambda>(t, fn). FsEvent t fn) evs @ [TimerFires env]) st = Returned st'"
      unfolding run run_timer using hot True st'(1) by simp
    then show ?thesis
      using st'(2-5) pend wl ws batch_of_facts(1,2) [of evs] by auto
  next
    case False
    then have "scheduled evs = []"
      by (simp add: watch_all_timer split: if_splits)
    then have B: "?B = []" by (simp add: batch_of_facts(3))
    have "run cfg (map (\<lambda>(t, fn). FsEvent t fn) evs @ [TimerFires env]) st = Returned ?w"
      unfolding run run_timer using False by simp
    then show ?thesis
      using B pend wl ws batch_of_facts(1,2) [of evs] by auto
  qed
qed

lemma xy_events_facts:
  "scheduled xy_events = [''x.ts'', ''y.ts'', ''x.ts'', ''y.ts'', ''x.ts'']"
  "batch_of xy_events = [''x.ts'', ''y.ts'']"
  "pendingReloads (watch_all xy_events init) = [''x.ts'', ''y.ts'']"
  "reloadTimeout (watch_all xy_events init) = Armed"
  "loads_in (trace (watch_all xy_events init)) = []"
  "sends_in (trace (watch_all xy_events init)) = 0"
proof -
  show s: "scheduled xy_events = [''x.ts'', ''y.ts'', ''x.ts'', ''y.ts'', ''x.ts'']"
    by (simp add: scheduled_def xy_events_def eligible_xy)
  show "batch_of xy_events = [''x.ts'', ''y.ts'']"
    by (simp add: batch_of_def s set_add_def)
  show "pendingReloads (watch_all xy_events init) = [''x.ts'', ''y.ts'']"
    by (simp add: watch_all_pending s init_def set_add_def)
  show "reloadTimeout (watch_all xy_events init) = Armed"
    by (simp add: watch_all_timer s)
  show "loads_in (trace (watch_all xy_events init)) = []"
       "sends_in (trace (watch_all xy_events init)) = 0"
    using watch_all_registry [of xy_events init] by (simp_all add: init_def)
qed



section \<open>Facts about the configuration\<close>

text \<open>
  Two configurations with the same tool directory, one with hot reload and one without,
  in an environment in which the import of each listed file settles the same way with and
  without the \<open>?t=\<close> token: the scan at startup ends in the same state, and without hot
  reload no input changes the state afterwards.
\<close>

lemma scheduler_off_same_directory:
  assumes off: "\<not> hotReload cfg" and on: "hotReload cfg'" and dir: "toolDir cfg = toolDir cfg'"
      and same: "token_independent (toolDir cfg') env"
  shows "startup cfg env = startup cfg' env" and "run cfg inputs st = Returned st"
proof -
  show "startup cfg env = startup cfg' env"
  proof (cases "readdir env (toolDir cfg')")
    case (Inl e)
    then show ?thesis by (simp add: startup_def loadAllTools_def dir)
  next
    case (Inr files)
    with same have "list_all (\<lambda>f. importModule env (requested_url cfg env f)
                           = importModule env (requested_url cfg' env f)) files"
      using off on by (simp add: token_independent_def requested_url_def eq_commute dir)
    then have "load_each cfg env files init = load_each cfg' env files init"
      using dir by (intro load_each_cong) simp_all
    with Inr show ?thesis by (simp add: startup_def loadAllTools_def dir)
  qed
  show "run cfg inputs st = Returned st"
    using off by (rule run_cold)
qed

lemma cli_configurations:
  "configure ''/w'' None [''node'', ''mcp-loader'']
     = \<lparr>toolDir = ''/w/.claude/tool'', hotReload = True\<rparr>"
  "configure ''/w'' None [''node'', ''mcp-loader'', ''--no-hot-reload'']
     = \<lparr>toolDir = ''/w/--no-hot-reload'', hotReload = False\<rparr>"
  "configure ''/w'' (Some ''true'') [''node'', ''mcp-loader'']
     = \<lparr>toolDir = ''/w/.claude/tool'', hotReload = False\<rparr>"
  by (simp_all add: configure_def resolve_def hotReload_setting_def)

lemma cli_startup:
  "startup \<lparr>toolDir = ''/w/.claude/tool'', hotReload = True\<rparr> cli_env
     = registerTool ''math_add'' echo_tool ''math''
         (unregisterFileTools ''math.ts'' (emit (CallLoadToolFile ''math.ts'') init))"
  "startup \<lparr>toolDir = ''/w/--no-hot-reload'', hotReload = False\<rparr> cli_env
     = emit (LogNoToolsFound (JObj [(''code'', JStr ''ENOENT'')])) init"
proof -
  have "load_result \<lparr>toolDir = ''/w/.claude/tool'', hotReload = True\<rparr> cli_env ''math.ts''
      = Inr [(''add'', echo_tool)]"
    by (simp add: load_result_def requested_url_def cli_env_def join_def pathToFileURL_def
          import_url_def dec_7)
  from loadToolFile_module [OF eligible_math this]
  show "startup \<lparr>toolDir = ''/w/.claude/tool'', hotReload = True\<rparr> cli_env
     = registerTool ''math_add'' echo_tool ''math''
         (unregisterFileTools ''math.ts'' (emit (CallLoadToolFile ''math.ts'') init))"
    by (simp add: startup_def loadAllTools_def cli_env_def strip_math)
  show "startup \<lparr>toolDir = ''/w/--no-hot-reload'', hotReload = False\<rparr> cli_env
     = emit (LogNoToolsFound (JObj [(''code'', JStr ''ENOENT'')])) init"
    by (simp add: startup_def loadAllTools_def cli_env_def)
qed

section \<open>The properties claimed by the specification\<close>





text \<open>
  C5. For a loaded file \<open>b.ts\<close> or \<open>b.js\<close>, whose base identity (the file name
  without its extension) is \<open>b\<close>: an accepted default export is registered under the name
  \<open>b\<close>, and every accepted named export \<open>e\<close> is registered under the name \<open>b_e\<close>.
  Registered means tracked as owned by \<open>b\<close> and bound, in the sink's table, to the entry
  built from that export.
\<close>

theorem exports_registered_under_derived_names:
  assumes ext: "ext = ''.ts'' \<or> ext = ''.js''"
      and load: "load_result cfg env (b @ ext) = Inr m"
      and dist: "distinct (map fst m)"
  shows "strip_ext (b @ ext) = b
       \<and> (\<forall>v. (''default'', v) \<in> set m \<and> isToolDefinition v \<longrightarrow>
              b \<in> set (owned (final (loadToolFile cfg env (b @ ext) st)) b)
            \<and> serverTools (final (loadToolFile cfg env (b @ ext) st)) b = Some (registered_entry v))
       \<and> (\<forall>e v. (e, v) \<in> set m \<and> e \<noteq> ''default'' \<and> isToolDefinition v \<longrightarrow>
              b @ ''_'' @ e \<in> set (owned (final (loadToolFile cfg env (b @ ext) st)) b)
            \<and> serverTools (final (loadToolFile cfg env (b @ ext) st)) (b @ ''_'' @ e)
                = Some (registered_entry v))"
proof -
  let ?file = "b @ ext"
  let ?st' = "final (loadToolFile cfg env ?file st)"
  let ?st1 = "unregisterFileTools ?file (emit (CallLoadToolFile ?file) st)"
  let ?d = "get (JObj m) ''default''"
  have b: "strip_ext ?file = b" by (rule strip_ext_append [OF ext])
  have el: "eligible ?file" by (rule eligible_append [OF ext])
  have st': "?st' = register_named b m (if isToolDefinition ?d then registerTool b ?d b ?st1 else ?st1)"
    using loadToolFile_module [OF el load, of st] by (simp add: b)
  have own: "set (owned ?st' b) = (if isToolDefinition ?d then {b} else {}) \<union> set (named_names b m)"
    using loadToolFile_owned [OF el, of cfg env st] load by (simp add: b)
  have dflt: "b \<in> set (owned ?st' b) \<and> serverTools ?st' b = Some (registered_entry v)"
    if "(''default'', v) \<in> set m" and "isToolDefinition v" for v
  proof -
    have "?d = v" using dist that(1) by (rule get_default)
    with that(2) show ?thesis
      unfolding own unfolding st'
      by (simp add: register_named_frame base_not_named registerTool_serverTools)
  qed
  have named: "b @ ''_'' @ e \<in> set (owned ?st' b)
             \<and> serverTools ?st' (b @ ''_'' @ e) = Some (registered_entry v)"
    if "(e, v) \<in> set m" and "e \<noteq> ''default''" and "isToolDefinition v" for e v
  proof -
    have "b @ ''_'' @ e \<in> set (named_names b m)"
      using that by (force simp: named_names_def)
    moreover have "serverTools ?st' (b @ ''_'' @ e) = Some (registered_entry v)"
      unfolding st' by (rule register_named_bound [OF dist that])
    ultimately show ?thesis
      unfolding own by simp
  qed
  show ?thesis
    using b dflt named by blast
qed

theorem exports_registered_under_derived_names_witness:
  "(''.ts'' = ''.ts'' \<or> ''.ts'' = ''.js'')
   \<and> load_result cfg_hot example_env (''math'' @ ''.ts'') = Inr math_module
   \<and> distinct (map fst math_module)
   \<and> serverTools (final (loadToolFile cfg_hot example_env ''math.ts'' init)) ''math''
        = Some (registered_entry failing_tool)
   \<and> serverTools (final (loadToolFile cfg_hot example_env ''math.ts'' init)) ''math_add''
        = Some (registered_entry echo_tool)
   \<and> set (owned (final (loadToolFile cfg_hot example_env ''math.ts'' init)) ''math'')
        \<supseteq> {''math'', ''math_add''}"
proof -
  have ext: "''.ts'' = ''.ts'' \<or> ''.ts'' = ''.js''" by simp
  have load: "load_result cfg_hot example_env (''math'' @ ''.ts'') = Inr math_module"
    using example_load_result by simp
  have dist: "distinct (map fst math_module)" by (simp add: math_module_def)
  have d: "(''default'', failing_tool) \<in> set math_module" and a: "(''add'', echo_tool) \<in> set math_module"
    by (simp_all add: math_module_def)
  note T = exports_registered_under_derived_names [OF ext load dist, of init]
  have 1: "''math'' \<in> set (owned (final (loadToolFile cfg_hot example_env ''math.ts'' init)) ''math'')
         \<and> serverTools (final (loadToolFile cfg_hot example_env ''math.ts'' init)) ''math''
              = Some (registered_entry failing_tool)"
    using T [THEN conjunct2, THEN conjunct1, rule_format, of failing_tool] d by simp
  have 2: "''math_add'' \<in> set (owned (final (loadToolFile cfg_hot example_env ''math.ts'' init)) ''math'')
         \<and> serverTools (final (loadToolFile cfg_hot example_env ''math.ts'' init)) ''math_add''
              = Some (registered_entry echo_tool)"
    using T [THEN conjunct2, THEN conjunct2, rule_format, of "''add''" echo_tool] a by simp
  show ?thesis
    using 1 2 load dist by simp
qed


text \<open>
  C6. For every module loaded from a tool file, an exported value is accepted exactly
  when it is an object (not \<open>null\<close>) with a string \<open>description\<close> and a function
  \<open>execute\<close>; the name derived for an export is registered as owned by the file exactly
  when the export is accepted, and an accepted export is bound to its entry in the sink's
  table. Every other export is ignored: a name not derived from an accepted export is not
  owned by the file and its slot in the table is what unregistering the file left; and
  \<open>loadToolFile\<close> returns, raising no error.
\<close>

theorem accepted_iff_tool_definition:
  assumes el: "eligible file"
      and load: "load_result cfg env file = Inr m"
      and dist: "distinct (map fst m)"
  shows "(\<forall>k v. (k, v) \<in> set m \<longrightarrow>
            (isToolDefinition v \<longleftrightarrow>
               (\<exists>ps d f. v = JObj ps \<and> map_of ps ''description'' = Some (JStr d)
                          \<and> map_of ps ''execute'' = Some (JFun f)))
          \<and> (capability_name (strip_ext file) k
                 \<in> set (owned (final (loadToolFile cfg env file st)) (strip_ext file))
               \<longleftrightarrow> isToolDefinition v)
          \<and> (isToolDefinition v \<longrightarrow>
                serverTools (final (loadToolFile cfg env file st)) (capability_name (strip_ext file) k)
                  = Some (registered_entry v)))
       \<and> (\<forall>n. n \<notin> set (derived_names (strip_ext file) m) \<longrightarrow>
              n \<notin> set (owned (final (loadToolFile cfg env file st)) (strip_ext file))
            \<and> serverTools (final (loadToolFile cfg env file st)) n
                = (if n \<in> set (owned st (strip_ext file)) then None else serverTools st n))
       \<and> returned (loadToolFile cfg env file st)"
proof -
  let ?b = "strip_ext file"
  let ?st' = "final (loadToolFile cfg env file st)"
  have ce: "current_exports cfg env file = m"
    using load by (simp add: current_exports_def)
  have own: "set (owned ?st' ?b) = set (derived_names ?b m)"
    using owned_after_load [OF el, of cfg env st] dist by (simp add: ce)
  have ret: "returned (loadToolFile cfg env file st)"
    using load by (simp add: returned_loadToolFile load_rejects_def)
  have per_export:
    "(isToolDefinition v \<longleftrightarrow>
        (\<exists>ps d f. v = JObj ps \<and> map_of ps ''description'' = Some (JStr d)
                   \<and> map_of ps ''execute'' = Some (JFun f)))
     \<and> (capability_name ?b k \<in> set (owned ?st' ?b) \<longleftrightarrow> isToolDefinition v)
     \<and> (isToolDefinition v \<longrightarrow>
           serverTools ?st' (capability_name ?b k) = Some (registered_entry v))"
    if kv: "(k, v) \<in> set m" for k v
    using isToolDefinition_iff [of v] derived_names_iff [OF dist kv, of ?b]
          bound_after_load [OF el load dist kv, of st]
    unfolding own by blast
  have others:
    "n \<notin> set (owned ?st' ?b)
     \<and> serverTools ?st' n = (if n \<in> set (owned st ?b) then None else serverTools st n)"
    if n: "n \<notin> set (derived_names ?b m)" for n
    using n loadToolFile_frame [OF el, of cfg env n st] dist
    unfolding own ce by simp
  show ?thesis
    using per_export others ret by blast
qed

theorem accepted_iff_tool_definition_witness:
  "eligible ''math.ts''
   \<and> load_result cfg_hot example_env ''math.ts'' = Inr math_module
   \<and> distinct (map fst math_module)
   \<and> ''math_helper'' \<notin> set (owned (final (loadToolFile cfg_hot example_env ''math.ts'' init)) ''math'')
   \<and> ''math_add'' \<in> set (owned (final (loadToolFile cfg_hot example_env ''math.ts'' init)) ''math'')
   \<and> serverTools (final (loadToolFile cfg_hot example_env ''math.ts'' init)) ''math_helper'' = None
   \<and> returned (loadToolFile cfg_hot example_env ''math.ts'' init)"
proof -
  have dist: "distinct (map fst math_module)" by (simp add: math_module_def)
  have h: "(''helper'', no_description) \<in> set math_module" and a: "(''add'', echo_tool) \<in> set math_module"
    by (simp_all add: math_module_def)
  note T = accepted_iff_tool_definition [OF eligible_math example_load_result dist, of init]
  have 1: "''math_helper'' \<notin> set (owned (final (loadToolFile cfg_hot example_env ''math.ts'' init)) ''math'')"
    using T [THEN conjunct1, rule_format, OF h] by (simp add: strip_math capability_name_def)
  have 2: "''math_add'' \<in> set (owned (final (loadToolFile cfg_hot example_env ''math.ts'' init)) ''math'')"
    using T [THEN conjunct1, rule_format, OF a] by (simp add: strip_math capability_name_def)
  have 3: "serverTools (final (loadToolFile cfg_hot example_env ''math.ts'' init)) ''math_helper'' = None"
    using T [THEN conjunct2, THEN conjunct1, rule_format, of "''math_helper''"]
    by (simp add: strip_math derived_math owned_def init_def)
  have 4: "returned (loadToolFile cfg_hot example_env ''math.ts'' init)"
    using T by simp
  show ?thesis
    using 1 2 3 4 eligible_math example_load_result dist by simp
qed


text \<open>
  C9. Unregistering a file's tools removes from the sink's table exactly the entries
  whose names are tracked as owned by the file, by name alone, whichever file registered
  the entry now stored under the name; entries under other names are unchanged, and the
  file's tracking entry is dropped. So there is a state in which two files derived the
  same name: in \<open>collided\<close>, \<open>a.ts\<close> (export \<open>b_c\<close>) and then \<open>a_b.ts\<close>
  (export \<open>c\<close>) were loaded, both own \<open>a_b_c\<close>, and the live entry is the one of
  \<open>a_b.ts\<close>; unregistering \<open>a.ts\<close> deletes that entry although \<open>a_b.ts\<close> still
  tracks the name.
\<close>

theorem unregister_removes_by_name:
  "serverTools (unregisterFileTools file st)
     = (\<lambda>n. if n \<in> set (owned st (strip_ext file)) then None else serverTools st n)
   \<and> registeredTools (unregisterFileTools file st) = (registeredTools st)(strip_ext file := None)
   \<and> owned collided ''a'' = [''a_b_c''] \<and> owned collided ''a_b'' = [''a_b_c'']
   \<and> serverTools collided ''a_b_c'' = Some (registered_entry failing_tool)
   \<and> serverTools (unregisterFileTools ''a.ts'' collided) ''a_b_c'' = None
   \<and> owned (unregisterFileTools ''a.ts'' collided) ''a_b'' = [''a_b_c'']"
proof -
  have "serverTools (unregisterFileTools file st)
     = (\<lambda>n. if n \<in> set (owned st (strip_ext file)) then None else serverTools st n)"
    by (rule ext) (rule unregister_serverTools)
  moreover have "serverTools (unregisterFileTools ''a.ts'' collided) ''a_b_c'' = None"
    by (simp add: unregister_serverTools strip_a collided_facts)
  moreover have "owned (unregisterFileTools ''a.ts'' collided) ''a_b'' = [''a_b_c'']"
    by (simp add: owned_unregister strip_a collided_facts)
  ultimately show ?thesis
    by (simp add: unregister_registeredTools collided_facts)
qed

theorem unregister_removes_by_name_witness:
  "serverTools (unregisterFileTools ''a_b.ts'' collided) ''a_b_c'' = None
   \<and> registeredTools (unregisterFileTools ''a_b.ts'' collided) ''a_b'' = None
   \<and> owned (unregisterFileTools ''a_b.ts'' collided) ''a'' = [''a_b_c'']"
  using unregister_removes_by_name [of "''a_b.ts''" collided]
  by (simp add: strip_a collided_facts owned_unregister)


text \<open>
  C10. For a tool definition whose \<open>args\<close> is present but has no keys, registration
  behaves exactly as for the same definition without \<open>args\<close>: the resulting state is
  the same, no argument schema is passed to the sink, and on every invocation
  \<open>execute\<close> is called with the empty object \<open>{}\<close> as its arguments, whatever
  arguments the call carried.
\<close>

theorem empty_args_as_absent:
  assumes args1: "get tool1 ''args'' = JObj []"
      and args0: "get tool0 ''args'' = JUndefined"
      and descr: "get tool1 ''description'' = get tool0 ''description''"
      and exec1: "get tool1 ''execute'' = JFun f"
      and exec0: "get tool0 ''execute'' = JFun f"
  shows "registerTool name tool1 b st = registerTool name tool0 b st
       \<and> serverTools (registerTool name tool1 b st) name = Some (registered_entry tool1)
       \<and> inputSchema (registered_entry tool1) = None
       \<and> (\<forall>args extra.
            invoke (registered_entry tool1) args extra
              = (case f (JObj []) extra of
                   Inl e \<Rightarrow> Inl e
                 | Inr result \<Rightarrow>
                     (case render result of
                        Inl err \<Rightarrow> Inl err
                      | Inr text \<Rightarrow> Inr (Envelope [Content ''text'' text]))))"
proof -
  have call: "call_execute tool1 = call_execute tool0"
    by (rule ext)+ (simp add: call_execute_def exec1 exec0)
  have same: "registerTool name tool1 b st = registerTool name tool0 b st"
    by (simp add: registerTool_def Let_def args1 args0 descr call)
  have schema: "inputSchema (registered_entry tool1) = None"
    by (simp add: registered_entry_def args1)
  have inv: "invoke (registered_entry tool1) args extra
              = (case f (JObj []) extra of
                   Inl e \<Rightarrow> Inl e
                 | Inr result \<Rightarrow>
                     (case render result of
                        Inl err \<Rightarrow> Inl err
                      | Inr text \<Rightarrow> Inr (Envelope [Content ''text'' text])))" for args extra
    by (simp add: invoke_registered_entry args1 call_execute_def exec1 respond_def)
  have bound: "serverTools (registerTool name tool1 b st) name = Some (registered_entry tool1)"
    by (simp add: registerTool_serverTools)
  show ?thesis
    using same bound schema inv by blast
qed

theorem empty_args_as_absent_witness:
  "get empty_args_tool ''args'' = JObj [] \<and> get no_args_tool ''args'' = JUndefined
   \<and> registerTool ''echo'' empty_args_tool ''echo'' init = registerTool ''echo'' no_args_tool ''echo'' init
   \<and> inputSchema (registered_entry empty_args_tool) = None
   \<and> invoke (registered_entry empty_args_tool) (JObj [(''text'', JStr ''hi'')]) JUndefined
        = Inr (Envelope [Content ''text'' (JsonStringify (JObj []))])"
proof -
  have 1: "get empty_args_tool ''args'' = JObj []" and 0: "get no_args_tool ''args'' = JUndefined"
    and d: "get empty_args_tool ''description'' = get no_args_tool ''description''"
    and e1: "get empty_args_tool ''execute'' = JFun (\<lambda>args extra. Inr args)"
    and e0: "get no_args_tool ''execute'' = JFun (\<lambda>args extra. Inr args)"
    by (simp_all add: empty_args_tool_def no_args_tool_def)
  show ?thesis
    using empty_args_as_absent [OF 1 0 d e1 e0, of "''echo''" "''echo''" init] 1 0
    by (simp add: render_def)
qed


text \<open>
  C2, as stated, fails. The claim is that the adapter catches a failure of \<open>execute\<close>
  and converts it into a failure response. The handler \<open>registerTool\<close> builds has no
  \<open>try\<close>/\<open>catch\<close>: for \<open>failing_tool\<close>, whose \<open>execute\<close> throws \<open>"boom"\<close>, the
  registered handler rejects with \<open>"boom"\<close> itself and builds no envelope.
\<close>

theorem handler_failure_counterexample:
  "call_tool (registerTool ''fail'' failing_tool ''fail'' init) ''fail'' (JObj []) JUndefined
     = Some (Inl (JStr ''boom''))"
  by (simp add: call_tool_registerTool invoke_registered_entry failing_tool_def
        call_execute_def respond_def)

text \<open>
  C2, as amended. For every registered capability and every invocation of its handler:
  if \<open>execute\<close> throws or rejects, the adapter does not catch the failure. The
  handler's promise rejects with that same value, so the failure leaves the adapter and
  reaches the sink that invoked the handler; the adapter builds no failure response.
  (\<open>execute\<close> receives the call's arguments when the tool has a non-empty \<open>args\<close>,
  and \<open>{}\<close> otherwise.)
\<close>

theorem handler_propagates_failure:
  assumes "get tool ''execute'' = JFun f"
      and "f (if truthy (get tool ''args'') \<and> object_keys (get tool ''args'') \<noteq> []
              then args else JObj []) extra = Inl e"
  shows "call_tool (registerTool name tool b st) name args extra = Some (Inl e)"
  using assms
  by (simp add: call_tool_registerTool invoke_registered_entry call_execute_def respond_def)

theorem handler_propagates_failure_witness:
  "get rethrowing_tool ''execute'' = JFun (\<lambda>args extra. Inl args)
   \<and> truthy (get rethrowing_tool ''args'') \<and> object_keys (get rethrowing_tool ''args'') \<noteq> []
   \<and> call_tool (registerTool ''rethrow'' rethrowing_tool ''rethrow'' collided) ''rethrow''
        (JStr ''bad input'') JUndefined
       = Some (Inl (JStr ''bad input''))"
proof -
  have e: "get rethrowing_tool ''execute'' = JFun (\<lambda>args extra. Inl args)"
    and a: "truthy (get rethrowing_tool ''args'')" "object_keys (get rethrowing_tool ''args'') \<noteq> []"
    by (simp_all add: rethrowing_tool_def)
  have "(\<lambda>args extra. Inl args)
          (if truthy (get rethrowing_tool ''args'') \<and> object_keys (get rethrowing_tool ''args'') \<noteq> []
           then JStr ''bad input'' else JObj []) JUndefined = (Inl (JStr ''bad input'') :: data + data)"
    using a by simp
  from handler_propagates_failure [OF e this, of "''rethrow''" "''rethrow''" collided]
  show ?thesis
    using e a by simp
qed




text \<open>
  C8 holds only when the command line flag is not the first argument. The claim is that
  disabling hot reload turns off the change scheduler and nothing else: the scan at
  startup registers the same capabilities, which behave the same. The program looks for
  \<open>--no-hot-reload\<close> anywhere in \<open>process.argv\<close>, and takes the tool directory from
  \<open>process.argv[2]\<close> whatever that argument is. Started in \<open>/w\<close> with no argument, it
  scans \<open>/w/.claude/tool\<close> with hot reload on, registers \<open>math_add\<close> and answers a call
  of it. Started in \<open>/w\<close> with the one argument \<open>--no-hot-reload\<close>, it takes that
  argument for the tool directory as well, scans \<open>/w/--no-hot-reload\<close>, and registers
  nothing: a call of \<open>math_add\<close> finds no tool. Disabled through
  \<open>MCP_NO_HOT_RELOAD=true\<close> instead, the program scans the same directory and ends the
  scan in the same state as with hot reload on.
\<close>

theorem lone_flag_read_as_tool_directory:
  "configure ''/w'' None [''node'', ''mcp-loader'']
     = \<lparr>toolDir = ''/w/.claude/tool'', hotReload = True\<rparr>
   \<and> configure ''/w'' None [''node'', ''mcp-loader'', ''--no-hot-reload'']
     = \<lparr>toolDir = ''/w/--no-hot-reload'', hotReload = False\<rparr>
   \<and> token_independent ''/w/.claude/tool'' cli_env
   \<and> owned (startup (configure ''/w'' None [''node'', ''mcp-loader'']) cli_env) ''math'' = [''math_add'']
   \<and> call_tool (startup (configure ''/w'' None [''node'', ''mcp-loader'']) cli_env)
        ''math_add'' (JObj [(''text'', JStr ''hi'')]) JNull
        = Some (Inr (Envelope [Content ''text'' (JsonStringify (JObj [(''text'', JStr ''hi'')]))]))
   \<and> owned (startup (configure ''/w'' None [''node'', ''mcp-loader'', ''--no-hot-reload'']) cli_env)
        ''math'' = []
   \<and> call_tool (startup (configure ''/w'' None [''node'', ''mcp-loader'', ''--no-hot-reload'']) cli_env)
        ''math_add'' (JObj [(''text'', JStr ''hi'')]) JNull
        = None
   \<and> configure ''/w'' (Some ''true'') [''node'', ''mcp-loader'']
     = \<lparr>toolDir = ''/w/.claude/tool'', hotReload = False\<rparr>
   \<and> startup (configure ''/w'' (Some ''true'') [''node'', ''mcp-loader'']) cli_env
     = startup (configure ''/w'' None [''node'', ''mcp-loader'']) cli_env"
proof -
  have ti: "token_independent ''/w/.claude/tool'' cli_env"
    by (simp add: token_independent_def cli_env_def import_url_def pathToFileURL_def join_def dec_7)
  have o1: "owned (startup \<lparr>toolDir = ''/w/.claude/tool'', hotReload = True\<rparr> cli_env) ''math''
      = [''math_add'']"
    using owned_begin [OF eligible_math, of init]
    by (simp add: cli_startup owned_registerTool loadToolFile_begin_eligible eligible_math
          strip_math set_add_def)
  have c1: "call_tool (startup \<lparr>toolDir = ''/w/.claude/tool'', hotReload = True\<rparr> cli_env)
        ''math_add'' (JObj [(''text'', JStr ''hi'')]) JNull
        = Some (Inr (Envelope [Content ''text'' (JsonStringify (JObj [(''text'', JStr ''hi'')]))]))"
    by (simp add: cli_startup call_tool_registerTool invoke_def registered_entry_def echo_tool_def
          call_execute_def respond_def render_def Let_def)
  have o2: "owned (startup \<lparr>toolDir = ''/w/--no-hot-reload'', hotReload = False\<rparr> cli_env) ''math'' = []"
    by (simp add: cli_startup owned_def init_def)
  have c2: "call_tool (startup \<lparr>toolDir = ''/w/--no-hot-reload'', hotReload = False\<rparr> cli_env)
        ''math_add'' (JObj [(''text'', JStr ''hi'')]) JNull = None"
    by (simp add: cli_startup call_tool_def init_def)
  have eq: "startup \<lparr>toolDir = ''/w/.claude/tool'', hotReload = False\<rparr> cli_env
     = startup \<lparr>toolDir = ''/w/.claude/tool'', hotReload = True\<rparr> cli_env"
    by (rule scheduler_off_same_directory(1)) (simp_all add: ti)
  show ?thesis
    unfolding cli_configurations using ti o1 c1 o2 c2 eq by simp
qed

text \<open>
  C3 holds only when no module of the batch throws \<open>null\<close> or \<open>undefined\<close>. The claim is
  that each file name of a drained batch is reloaded exactly once and that a batch with at
  least one file name sends exactly one list-changed notification after all its reloads,
  whether individual files load or fail. In the window below \<open>x.ts\<close> is named by three
  events and \<open>y.ts\<close> by two, so the batch is \<open>x.ts\<close>, \<open>y.ts\<close>, and the server has a
  \<open>sendToolListChanged\<close> that resolves. When \<open>x.ts\<close> throws \<open>undefined\<close> during
  initialization, the \<open>catch\<close> block of \<open>loadToolFile\<close> throws on reading \<open>e.code\<close>, the
  timer callback is left: \<open>y.ts\<close>, which is in the batch, is not reloaded at all, no
  notification is sent, and the pending set was already cleared. When \<open>x.ts\<close> throws an
  object with a message instead, each file of the batch is reloaded once and one
  notification is sent.
\<close>

theorem undefined_throw_drops_notification:
  "batch_of xy_events = [''x.ts'', ''y.ts'']
   \<and> sendToolListChanged undefined_env = Resolves
   \<and> \<not> returned (run cfg_hot (map (\<lambda>(t, fn). FsEvent t fn) xy_events @ [TimerFires undefined_env]) init)
   \<and> loads_in (trace (final (run cfg_hot
         (map (\<lambda>(t, fn). FsEvent t fn) xy_events @ [TimerFires undefined_env]) init))) = [''x.ts'']
   \<and> sends_in (trace (final (run cfg_hot
         (map (\<lambda>(t, fn). FsEvent t fn) xy_events @ [TimerFires undefined_env]) init))) = 0
   \<and> pendingReloads (final (run cfg_hot
         (map (\<lambda>(t, fn). FsEvent t fn) xy_events @ [TimerFires undefined_env]) init)) = []
   \<and> sendToolListChanged error_env = Resolves
   \<and> returned (run cfg_hot (map (\<lambda>(t, fn). FsEvent t fn) xy_events @ [TimerFires error_env]) init)
   \<and> loads_in (trace (final (run cfg_hot
         (map (\<lambda>(t, fn). FsEvent t fn) xy_events @ [TimerFires error_env]) init))) = [''x.ts'', ''y.ts'']
   \<and> sends_in (trace (final (run cfg_hot
         (map (\<lambda>(t, fn). FsEvent t fn) xy_events @ [TimerFires error_env]) init))) = 1"
proof -
  let ?w = "(watch_all xy_events init)\<lparr>reloadTimeout := Fired\<rparr>"
  have hot: "hotReload cfg_hot" by (simp add: cfg_hot_def)
  have window: "run cfg_hot (map (\<lambda>(t, fn). FsEvent t fn) xy_events @ [TimerFires env]) init
      = reload_batch cfg_hot env ?w" for env
    unfolding run_window [OF hot] run_timer by (simp add: hot xy_events_facts)
  have x_undef: "loadToolFile cfg_hot undefined_env ''x.ts'' st
      = Rejected type_error (unregisterFileTools ''x.ts'' (emit (CallLoadToolFile ''x.ts'') st))" for st
    by (simp add: loadToolFile_eligible eligible_xy undefined_env_def failing_dir_results
          load_failed_def read_prop_def)
  have batch: "reload_batch cfg_hot undefined_env ?w
      = Rejected type_error (unregisterFileTools ''x.ts''
          (emit (CallLoadToolFile ''x.ts'') (?w\<lparr>pendingReloads := []\<rparr>)))"
    by (simp add: reload_batch_def Let_def xy_events_facts x_undef)
  have lost:
    "\<not> returned (reload_batch cfg_hot undefined_env ?w)"
    "loads_in (trace (final (reload_batch cfg_hot undefined_env ?w))) = [''x.ts'']"
    "sends_in (trace (final (reload_batch cfg_hot undefined_env ?w))) = 0"
    "pendingReloads (final (reload_batch cfg_hot undefined_env ?w)) = []"
    by (simp_all add: batch xy_events_facts)
  have av: "sendToolListChanged (failing_dir e) = Resolves" for e
    by (simp add: failing_dir_def)
  have ok: "\<forall>f \<in> set (batch_of xy_events). \<not> load_rejects cfg_hot error_env f"
    by (simp add: xy_events_facts load_rejects_def error_env_def failing_dir_results)
  have empty: "pendingReloads init = []" by (simp add: init_def)
  from window_without_rejection [OF hot empty ok]
  obtain st' where "run cfg_hot (map (\<lambda>(t, fn). FsEvent t fn) xy_events @ [TimerFires error_env]) init
        = Returned st'"
    and "loads_in (trace st') = loads_in (trace init) @ batch_of xy_events"
    and "sends_in (trace st') = sends_in (trace init)
          + (if batch_of xy_events \<noteq> [] \<and> sendToolListChanged error_env \<noteq> NotAvailable then 1 else 0)"
    by blast
  then have sent:
    "returned (run cfg_hot (map (\<lambda>(t, fn). FsEvent t fn) xy_events @ [TimerFires error_env]) init)"
    "loads_in (trace (final (run cfg_hot
         (map (\<lambda>(t, fn). FsEvent t fn) xy_events @ [TimerFires error_env]) init))) = [''x.ts'', ''y.ts'']"
    "sends_in (trace (final (run cfg_hot
         (map (\<lambda>(t, fn). FsEvent t fn) xy_events @ [TimerFires error_env]) init))) = 1"
    by (simp_all add: xy_events_facts init_def error_env_def av)
  show ?thesis
    using lost sent av [of JUndefined] av [of "JObj [(''message'', JStr ''init failed'')]"]
    unfolding window by (simp add: xy_events_facts undefined_env_def error_env_def)
qed

text \<open>
  C4 holds only when the value a failing module throws is neither \<open>null\<close> nor
  \<open>undefined\<close>. The \<open>catch\<close> block of \<open>loadToolFile\<close> reads \<open>e.code\<close>; when
  \<open>x.ts\<close> throws \<open>null\<close> during initialization that read throws a
  \<open>TypeError\<close>, which nothing catches: \<open>loadToolFile\<close> rejects, the loop of the batch
  is left, \<open>y.ts\<close> is never loaded, its tool is not registered and no notification is
  sent. When \<open>x.ts\<close> throws an object with a message instead, the failure is logged,
  \<open>y.ts\<close> is loaded and registered, and the notification is sent.
\<close>

theorem nullish_throw_aborts_batch:
  "\<not> returned (loadToolFile cfg_hot null_env ''x.ts'' init)
   \<and> \<not> returned (run cfg_hot [FsEvent ''change'' (Some ''x.ts''), FsEvent ''change'' (Some ''y.ts''),
                              TimerFires null_env] init)
   \<and> loads_in (trace (final (run cfg_hot [FsEvent ''change'' (Some ''x.ts''),
         FsEvent ''change'' (Some ''y.ts''), TimerFires null_env] init))) = [''x.ts'']
   \<and> sends_in (trace (final (run cfg_hot [FsEvent ''change'' (Some ''x.ts''),
         FsEvent ''change'' (Some ''y.ts''), TimerFires null_env] init))) = 0
   \<and> serverTools (final (run cfg_hot [FsEvent ''change'' (Some ''x.ts''),
         FsEvent ''change'' (Some ''y.ts''), TimerFires null_env] init)) ''y_tool'' = None
   \<and> returned (run cfg_hot [FsEvent ''change'' (Some ''x.ts''), FsEvent ''change'' (Some ''y.ts''),
                            TimerFires error_env] init)
   \<and> loads_in (trace (final (run cfg_hot [FsEvent ''change'' (Some ''x.ts''),
         FsEvent ''change'' (Some ''y.ts''), TimerFires error_env] init))) = [''x.ts'', ''y.ts'']
   \<and> sends_in (trace (final (run cfg_hot [FsEvent ''change'' (Some ''x.ts''),
         FsEvent ''change'' (Some ''y.ts''), TimerFires error_env] init))) = 1
   \<and> serverTools (final (run cfg_hot [FsEvent ''change'' (Some ''x.ts''),
         FsEvent ''change'' (Some ''y.ts''), TimerFires error_env] init)) ''y_tool''
        = Some (registered_entry echo_tool)"
proof -
  let ?w = "(watch_all [(''change'', Some ''x.ts''), (''change'', Some ''y.ts'')] init)\<lparr>reloadTimeout := Fired\<rparr>"
  have single: "\<not> returned (loadToolFile cfg_hot null_env ''x.ts'' init)"
    by (simp add: returned_loadToolFile load_rejects_def eligible_xy null_env_def failing_dir_results)
  have x_null: "loadToolFile cfg_hot null_env ''x.ts'' st
      = Rejected type_error (unregisterFileTools ''x.ts'' (emit (CallLoadToolFile ''x.ts'') st))" for st
    by (simp add: loadToolFile_eligible eligible_xy null_env_def failing_dir_results
          load_failed_def read_prop_def)
  have batch_null: "reload_batch cfg_hot null_env ?w
      = Rejected type_error (unregisterFileTools ''x.ts''
          (emit (CallLoadToolFile ''x.ts'') (?w\<lparr>pendingReloads := []\<rparr>)))"
    by (simp add: reload_batch_def Let_def xy_pending x_null)
  have null_facts:
    "\<not> returned (reload_batch cfg_hot null_env ?w)"
    "loads_in (trace (final (reload_batch cfg_hot null_env ?w))) = [''x.ts'']"
    "sends_in (trace (final (reload_batch cfg_hot null_env ?w))) = 0"
    "serverTools (final (reload_batch cfg_hot null_env ?w)) ''y_tool'' = None"
    by (simp_all add: batch_null xy_before unregister_serverTools)
  have "\<forall>f \<in> set (pendingReloads ?w). \<not> load_rejects cfg_hot error_env f"
    by (simp add: xy_pending load_rejects_def error_env_def failing_dir_results)
  from reload_batch_ok [OF this]
  obtain st' where st': "reload_batch cfg_hot error_env ?w = Returned st'"
    and l: "loads_in (trace st') = loads_in (trace ?w) @ pendingReloads ?w"
    and s: "sends_in (trace st') = sends_in (trace ?w)
          + (if pendingReloads ?w \<noteq> [] \<and> sendToolListChanged error_env \<noteq> NotAvailable then 1 else 0)"
    by blast
  have x_err: "loadToolFile cfg_hot error_env ''x.ts'' st
      = Returned (emit (LogFailedToLoad ''x.ts'' (JStr ''init failed''))
          (unregisterFileTools ''x.ts'' (emit (CallLoadToolFile ''x.ts'') st)))" for st
    by (simp add: loadToolFile_eligible eligible_xy error_env_def failing_dir_results
          load_failed_def read_prop_def)
  have y_err: "serverTools (final (loadToolFile cfg_hot error_env ''y.ts'' st)) ''y_tool''
      = Some (registered_entry echo_tool)" for st
    by (simp add: loadToolFile_eligible eligible_xy error_env_def failing_dir_results strip_xy
          registerTool_serverTools)
  let ?sx = "emit (LogFailedToLoad ''x.ts'' (JStr ''init failed''))
               (unregisterFileTools ''x.ts''
                  (emit (CallLoadToolFile ''x.ts'') (?w\<lparr>pendingReloads := []\<rparr>)))"
  have "returned (loadToolFile cfg_hot error_env ''y.ts'' ?sx)"
    by (simp add: returned_loadToolFile load_rejects_def error_env_def failing_dir_results)
  then obtain sy where sy: "loadToolFile cfg_hot error_env ''y.ts'' ?sx = Returned sy"
    by (cases "loadToolFile cfg_hot error_env ''y.ts'' ?sx") simp_all
  have bound: "serverTools sy ''y_tool'' = Some (registered_entry echo_tool)"
    using y_err [of ?sx] by (simp add: sy)
  have "reload_batch cfg_hot error_env ?w
        = Returned (send_list_changed error_env (emit LogSendingNotification sy))"
    by (simp add: reload_batch_def Let_def xy_pending x_err sy)
  with st' have "st' = send_list_changed error_env (emit LogSendingNotification sy)"
    by simp
  then have "serverTools st' ''y_tool'' = Some (registered_entry echo_tool)"
    by (simp add: send_list_changed_registry bound)
  moreover have "sendToolListChanged error_env = Resolves"
    by (simp add: error_env_def failing_dir_def)
  ultimately show ?thesis
    unfolding xy_window using single null_facts st' l s
    by (simp add: xy_pending xy_before)
qed

end
